theory Spec2Isabelle
  imports Complex_Main "HOL-Library.Word"
begin

unbundle bit_operations_syntax

section \<open>Input reports: bytes, errors, JavaScript values\<close>

text \<open>
  An input report is a \<open>DataView\<close> over a byte buffer. \<open>DataView.getUint8\<close> returns the
  byte at an index inside the view and throws a \<open>RangeError\<close> outside it. Byte offsets of
  a layout are array indices, modelled as natural numbers.
\<close>

type_synonym u8 = "8 word"
type_synonym DataView = "u8 list"

datatype error = RangeError | TypeError | Error string

definition getUint8 :: "DataView \<Rightarrow> nat \<Rightarrow> error + u8" where
  "getUint8 data i = (if i < length data then Inr (data ! i) else Inl RangeError)"

record StickPosition =
  sp_x :: rat
  sp_y :: rat

record StickStates =
  ss_left :: StickPosition
  ss_right :: StickPosition

text \<open>
  \<open>button_states\<close> and the change-set are JavaScript objects indexed by arbitrary string
  keys whose values are booleans, numbers or the stick record; a key that was never written
  reads as \<open>undefined\<close> (\<open>None\<close>). Strict inequality \<open>!==\<close> on such values is
  inequality of \<open>jsval option\<close>.
\<close>

datatype jsval = JBool bool | JNum rat | JSticks StickStates

type_synonym ButtonStates = "string \<Rightarrow> jsval option"
type_synonym InputChanges = "string \<Rightarrow> jsval option"

record TouchPoint =
  tp_active :: bool
  tp_id :: int
  tp_x :: int
  tp_y :: int

record ButtonMapping =
  bm_name :: string
  bm_byte :: nat
  bm_mask :: int

record InputConfig =
  buttonMap :: "ButtonMapping list"
  dpadByte :: nat
  l2AnalogByte :: nat
  r2AnalogByte :: nat
  touchpadOffset :: "nat option"

section \<open>Touchpad decoding\<close>

definition TOUCHPAD_MAX_POINTS :: nat where "TOUCHPAD_MAX_POINTS = 2"
definition TOUCHPAD_BYTES_PER_POINT :: nat where "TOUCHPAD_BYTES_PER_POINT = 4"
definition TOUCHPAD_ACTIVE_MASK :: "32 word" where "TOUCHPAD_ACTIVE_MASK = 0x80"
definition TOUCHPAD_ID_MASK :: "32 word" where "TOUCHPAD_ID_MASK = 0x7f"
definition TOUCHPAD_X_LOW_MASK :: "32 word" where "TOUCHPAD_X_LOW_MASK = 0x0f"
definition TOUCHPAD_Y_SHIFT :: nat where "TOUCHPAD_Y_SHIFT = 4"

text \<open>
  JavaScript's \<open>&\<close>, \<open>|\<close>, \<open><<\<close> and \<open>>>\<close> work on 32-bit two's complement integers:
  the byte is widened to a 32-bit word, \<open>>>\<close> is the arithmetic shift, and the result is
  read back as a signed number.
\<close>

definition toInt32 :: "u8 \<Rightarrow> 32 word" where
  "toInt32 b = ucast b"

definition touchPointOf :: "u8 \<Rightarrow> u8 \<Rightarrow> u8 \<Rightarrow> u8 \<Rightarrow> TouchPoint" where
  "touchPointOf b0 b1 b2 b3 =
     \<lparr> tp_active = (toInt32 b0 AND TOUCHPAD_ACTIVE_MASK = 0),
       tp_id = sint (toInt32 b0 AND TOUCHPAD_ID_MASK),
       tp_x = sint (push_bit 8 (toInt32 b2 AND TOUCHPAD_X_LOW_MASK) OR toInt32 b1),
       tp_y = sint (push_bit TOUCHPAD_Y_SHIFT (toInt32 b3)
                    OR signed_drop_bit TOUCHPAD_Y_SHIFT (toInt32 b2)) \<rparr>"

text \<open>One iteration of the loop of \<open>_parseTouchPoints\<close>: four reads, each of which may throw.\<close>

definition parseTouchPoint :: "DataView \<Rightarrow> nat \<Rightarrow> error + TouchPoint" where
  "parseTouchPoint data base =
     (case getUint8 data base of Inl e \<Rightarrow> Inl e | Inr b0 \<Rightarrow>
      case getUint8 data (base + 1) of Inl e \<Rightarrow> Inl e | Inr b1 \<Rightarrow>
      case getUint8 data (base + 2) of Inl e \<Rightarrow> Inl e | Inr b2 \<Rightarrow>
      case getUint8 data (base + 3) of Inl e \<Rightarrow> Inl e | Inr b3 \<Rightarrow>
      Inr (touchPointOf b0 b1 b2 b3))"

function parseTouchPointsLoop :: "DataView \<Rightarrow> nat \<Rightarrow> nat \<Rightarrow> TouchPoint list \<Rightarrow> error + TouchPoint list" where
  "parseTouchPointsLoop data offset i points =
     (if i < TOUCHPAD_MAX_POINTS then
        (case parseTouchPoint data (offset + i * TOUCHPAD_BYTES_PER_POINT) of
           Inl e \<Rightarrow> Inl e
         | Inr p \<Rightarrow> parseTouchPointsLoop data offset (i + 1) (points @ [p]))
      else Inr points)"
  by pat_completeness auto
termination
  by (relation "measure (\<lambda>(data, offset, i, points). TOUCHPAD_MAX_POINTS - i)") auto

definition parseTouchPoints :: "DataView \<Rightarrow> nat \<Rightarrow> error + TouchPoint list" where
  "parseTouchPoints data offset = parseTouchPointsLoop data offset 0 []"

text \<open>The bit layout in the words of the specification, over plain numbers.\<close>

definition spec_touchPoint :: "nat \<Rightarrow> nat \<Rightarrow> nat \<Rightarrow> nat \<Rightarrow> TouchPoint" where
  "spec_touchPoint byte0 byte1 byte2 byte3 =
     \<lparr> tp_active = (byte0 div 128 = 0),
       tp_id = int (byte0 mod 128),
       tp_x = int ((byte2 mod 16) * 256 + byte1),
       tp_y = int (byte3 * 16 + byte2 div 16) \<rparr>"

section \<open>Stick values\<close>

text \<open>
  \<open>Math.round(((v - 127.5) / 128) * 100) / 100\<close>. For a byte \<open>v\<close> every intermediate
  value up to the rounding is a dyadic rational that binary64 holds exactly, and the
  rounded value is an integer between -100 and 100, so the arithmetic is carried out on
  rationals; the result stands for the double nearest to it. \<open>Math.round\<close> rounds
  halves up, as \<open>round\<close> does. Byte 127 gives \<open>-0\<close>, which \<open>!==\<close> does not tell
  from \<open>0\<close>; both are the rational 0.
\<close>

definition stickValue :: "u8 \<Rightarrow> rat" where
  "stickValue v = of_int (round (((of_nat (unat v) - 127.5) / 128) * 100 :: rat)) / 100"

section \<open>The input state tracker\<close>

text \<open>
  \<open>_sticksChanged\<close> reads \<open>current.left.x\<close> first: when the \<open>sticks\<close> entry of the
  snapshot is not a stick record (it is \<open>undefined\<close>, or a boolean or number written under
  that key), \<open>current.left\<close> is \<open>undefined\<close> and reading its \<open>x\<close> throws a TypeError.
\<close>

definition sticksChanged :: "jsval option \<Rightarrow> StickStates \<Rightarrow> error + bool" where
  "sticksChanged current newValues =
     (case current of
        Some (JSticks cur) \<Rightarrow>
          Inr (sp_x (ss_left cur) \<noteq> sp_x (ss_left newValues) \<or>
               sp_y (ss_left cur) \<noteq> sp_y (ss_left newValues) \<or>
               sp_x (ss_right cur) \<noteq> sp_x (ss_right newValues) \<or>
               sp_y (ss_right cur) \<noteq> sp_y (ss_right newValues))
      | _ \<Rightarrow> Inl TypeError)"

text \<open>
  A step of \<open>_recordButtonStates\<close> takes the snapshot and the change-set built so far and
  returns the change-set or the exception thrown, together with the snapshot as the step
  left it: what was written before an exception stays written.
\<close>

type_synonym tracker_step =
  "ButtonStates \<Rightarrow> InputChanges \<Rightarrow> (error + InputChanges) \<times> ButtonStates"

definition seq :: "tracker_step \<Rightarrow> tracker_step \<Rightarrow> tracker_step" where
  "seq f g st ch = (case f st ch of (Inl e, st') \<Rightarrow> (Inl e, st') | (Inr ch', st') \<Rightarrow> g st' ch')"

definition readSticks :: "DataView \<Rightarrow> error + StickStates" where
  "readSticks data =
     (case getUint8 data 0 of Inl e \<Rightarrow> Inl e | Inr b0 \<Rightarrow>
     (case getUint8 data 1 of Inl e \<Rightarrow> Inl e | Inr b1 \<Rightarrow>
     (case getUint8 data 2 of Inl e \<Rightarrow> Inl e | Inr b2 \<Rightarrow>
     (case getUint8 data 3 of Inl e \<Rightarrow> Inl e | Inr b3 \<Rightarrow>
        Inr \<lparr> ss_left = \<lparr> sp_x = stickValue b0, sp_y = stickValue b1 \<rparr>,
              ss_right = \<lparr> sp_x = stickValue b2, sp_y = stickValue b3 \<rparr> \<rparr>))))"

definition recordSticks :: "DataView \<Rightarrow> tracker_step" where
  "recordSticks data st ch =
     (case readSticks data of
        Inl e \<Rightarrow> (Inl e, st)
      | Inr newSticks \<Rightarrow>
          (case sticksChanged (st ''sticks'') newSticks of
             Inl e \<Rightarrow> (Inl e, st)
           | Inr c \<Rightarrow>
               if c then (Inr (ch(''sticks'' \<mapsto> JSticks newSticks)),
                          st(''sticks'' \<mapsto> JSticks newSticks))
               else (Inr ch, st)))"

definition recordTrigger :: "DataView \<Rightarrow> string \<Rightarrow> nat \<Rightarrow> tracker_step" where
  "recordTrigger data triggerName byte st ch =
     (case getUint8 data byte of
        Inl e \<Rightarrow> (Inl e, st)
      | Inr b \<Rightarrow>
          (let val = JNum (of_nat (unat b)) in
           if Some val \<noteq> st triggerName
           then (Inr (ch(triggerName \<mapsto> val)), st(triggerName \<mapsto> val))
           else (Inr ch, st)))"

definition dpadDirections :: "string list" where
  "dpadDirections = [''up'', ''right'', ''down'', ''left'']"

text \<open>The record \<open>dpad_map\<close>; it is only ever looked up at the four directions.\<close>

definition dpad_map :: "u8 \<Rightarrow> string \<Rightarrow> bool" where
  "dpad_map hat dir =
     (if dir = ''up'' then hat = 0 \<or> hat = 1 \<or> hat = 7
      else if dir = ''right'' then hat = 1 \<or> hat = 2 \<or> hat = 3
      else if dir = ''down'' then hat = 3 \<or> hat = 4 \<or> hat = 5
      else if dir = ''left'' then hat = 5 \<or> hat = 6 \<or> hat = 7
      else False)"

definition recordPressed :: "string \<Rightarrow> bool \<Rightarrow> InputChanges \<times> ButtonStates \<Rightarrow> InputChanges \<times> ButtonStates" where
  "recordPressed name pressed cs =
     (case cs of (ch, st) \<Rightarrow>
        if st name \<noteq> Some (JBool pressed)
        then (ch(name \<mapsto> JBool pressed), st(name \<mapsto> JBool pressed))
        else (ch, st))"

definition recordDpad :: "DataView \<Rightarrow> nat \<Rightarrow> tracker_step" where
  "recordDpad data dpad_byte st ch =
     (case getUint8 data dpad_byte of
        Inl e \<Rightarrow> (Inl e, st)
      | Inr b \<Rightarrow>
          (let hat = b AND 0x0f in
           case fold (\<lambda>dir. recordPressed dir (dpad_map hat dir)) dpadDirections (ch, st) of
             (ch', st') \<Rightarrow> (Inr ch', st')))"

fun recordButtons :: "DataView \<Rightarrow> ButtonMapping list \<Rightarrow> tracker_step" where
  "recordButtons data [] st ch = (Inr ch, st)"
| "recordButtons data (btn # rest) st ch =
     (if bm_name btn \<in> set dpadDirections then recordButtons data rest st ch
      else
        (case getUint8 data (bm_byte btn) of
           Inl e \<Rightarrow> (Inl e, st)
         | Inr b \<Rightarrow>
             (case recordPressed (bm_name btn) (uint b AND bm_mask btn \<noteq> 0) (ch, st) of
                (ch', st') \<Rightarrow> recordButtons data rest st' ch')))"

definition recordButtonStates ::
  "ButtonStates \<Rightarrow> DataView \<Rightarrow> ButtonMapping list \<Rightarrow> nat \<Rightarrow> nat \<Rightarrow> nat \<Rightarrow> (error + InputChanges) \<times> ButtonStates" where
  "recordButtonStates st data BUTTON_MAP dpad_byte l2_analog_byte r2_analog_byte =
     seq (recordSticks data)
       (seq (recordTrigger data ''l2_analog'' l2_analog_byte)
         (seq (recordTrigger data ''r2_analog'' r2_analog_byte)
           (seq (recordDpad data dpad_byte)
             (recordButtons data BUTTON_MAP)))) st Map.empty"

section \<open>Battery status\<close>

record BatteryInfo =
  bat_capacity :: int
  cable_connected :: bool
  is_charging :: bool
  is_error :: bool

record BatteryStatus = BatteryInfo +
  bat_txt :: string
  changed :: bool

text \<open>Decimal rendering of an integer, as a template literal renders an integral number.\<close>

function showNat :: "nat \<Rightarrow> string" where
  "showNat n = (if n < 10 then [''0123456789'' ! n]
                else showNat (n div 10) @ [''0123456789'' ! (n mod 10)])"
  by pat_completeness auto
termination
  by (relation "measure id") auto

definition showInt :: "int \<Rightarrow> string" where
  "showInt k = (if k < 0 then CHR ''-'' # showNat (nat (- k)) else showNat (nat k))"

definition batteryIcons :: "(int \<times> string) list" where
  "batteryIcons =
     [(20, ''fa-battery-empty''), (40, ''fa-battery-quarter''),
      (60, ''fa-battery-half''), (80, ''fa-battery-three-quarters'')]"

definition batteryPercentToText :: \<open>(string \<Rightarrow> string) \<Rightarrow> BatteryInfo \<Rightarrow> string\<close> where
  \<open>batteryPercentToText l info =
     (if is_error info then ''<font color="red">'' @ l ''error'' @ ''</font>''
      else
        (let icon_txt = (case find (\<lambda>item. bat_capacity info < fst item) batteryIcons of
                           Some item \<Rightarrow> snd item
                         | None \<Rightarrow> ''fa-battery-full'');
             icon_full = ''<i class="fa-solid '' @ icon_txt @ ''"></i>'';
             bolt_txt = (if is_charging info then ''<i class="fa-solid fa-bolt"></i>'' else [])
         in (showInt (bat_capacity info) @ ''%'') @ '' '' @ icon_full @ '' '' @ bolt_txt))\<close>

text \<open>
  \<open>_parseBatteryStatus\<close>: the reading itself comes from the connected controller's
  \<open>parseBatteryStatus\<close>, a parameter here; the remembered label is returned updated.
\<close>

definition parseBatteryStatus ::
  "(string \<Rightarrow> string) \<Rightarrow> (DataView \<Rightarrow> error + BatteryInfo) \<Rightarrow> DataView \<Rightarrow> string \<Rightarrow> (error + BatteryStatus) \<times> string" where
  "parseBatteryStatus l drv_parse data lastBatteryText =
     (case drv_parse data of
        Inl e \<Rightarrow> (Inl e, lastBatteryText)
      | Inr batteryInfo \<Rightarrow>
          (let txt = batteryPercentToText l batteryInfo;
               chg = (txt \<noteq> lastBatteryText)
           in (Inr (BatteryInfo.extend batteryInfo \<lparr> bat_txt = txt, changed = chg \<rparr>), txt)))"

section \<open>The controller manager\<close>

text \<open>
  Results of the controller driver, as the manager reads them: \<open>ok\<close>, an optional numeric
  \<open>code\<close> and an optional \<open>error\<close> text.
\<close>

record CalibrationResult =
  cr_ok :: bool
  cr_code :: "int option"
  cr_error :: "string option"

record CalibrationResponse =
  success :: bool
  message :: string

text \<open>
  The connected controller. Its methods talk to a device whose state \<open>'d\<close> they read and
  change; each returns its result or the exception it throws. The manager reaches it through
  \<open>this.currentController!\<close>, and the translation hook through \<open>this.l!\<close>: both are
  asserted present by the source and are parameters here.
\<close>

record ('d, 'nv) Controller =
  drv_getInputConfig :: InputConfig
  drv_parseBatteryStatus :: "DataView \<Rightarrow> error + BatteryInfo"
  drv_queryNvStatus :: "'d \<Rightarrow> (error + 'nv) \<times> 'd"
  drv_nvsLock :: "'d \<Rightarrow> (error + CalibrationResult) \<times> 'd"
  drv_calibrateSticksBegin :: "'d \<Rightarrow> (error + CalibrationResult) \<times> 'd"
  drv_calibrateSticksSample :: "'d \<Rightarrow> (error + CalibrationResult) \<times> 'd"
  drv_calibrateSticksEnd :: "'d \<Rightarrow> (error + CalibrationResult) \<times> 'd"
  drv_calibrateRangeEnd :: "'d \<Rightarrow> (error + CalibrationResult option) \<times> 'd"

record ControllerManager =
  has_changes_to_write :: "bool option"
  button_states :: ButtonStates
  touchPoints :: "TouchPoint list"
  batteryStatus :: BatteryStatus
  lastBatteryText :: string

text \<open>The state the constructor builds.\<close>

definition newControllerManager :: ControllerManager where
  "newControllerManager =
     \<lparr> has_changes_to_write = None,
       button_states =
         [''sticks'' \<mapsto> JSticks \<lparr> ss_left = \<lparr> sp_x = 0, sp_y = 0 \<rparr>,
                                  ss_right = \<lparr> sp_x = 0, sp_y = 0 \<rparr> \<rparr>],
       touchPoints = [],
       batteryStatus = \<lparr> bat_capacity = 0, cable_connected = False, is_charging = False,
                         is_error = False, bat_txt = [], changed = False \<rparr>,
       lastBatteryText = [] \<rparr>"

record ProcessedInputResult =
  pr_changes :: InputChanges
  pr_buttonMap :: "ButtonMapping list"
  pr_touchPoints :: "TouchPoint list"
  pr_batteryStatus :: BatteryStatus

text \<open>
  \<open>processControllerInput\<close>. The result is what the input handler, if one is set, is called
  with. \<open>if (touchpadOffset)\<close> holds for an offset that is declared and not 0. The
  controller's \<open>getInputConfig()\<close> returns its layout, a constant of the driver.
\<close>

definition processControllerInput ::
  "(string \<Rightarrow> string) \<Rightarrow> ('d, 'nv) Controller \<Rightarrow> ControllerManager \<Rightarrow> DataView
     \<Rightarrow> (error + ProcessedInputResult) \<times> ControllerManager" where
  "processControllerInput l drv m data =
     (let inputConfig = drv_getInputConfig drv in
      case recordButtonStates (button_states m) data (buttonMap inputConfig) (dpadByte inputConfig)
             (l2AnalogByte inputConfig) (r2AnalogByte inputConfig) of
        (Inl e, bs) \<Rightarrow> (Inl e, m\<lparr>button_states := bs\<rparr>)
      | (Inr changes, bs) \<Rightarrow>
          (let m1 = m\<lparr>button_states := bs\<rparr> in
           case (case touchpadOffset inputConfig of
                   None \<Rightarrow> Inr (touchPoints m1)
                 | Some off \<Rightarrow> if off \<noteq> 0 then parseTouchPoints data off
                               else Inr (touchPoints m1)) of
             Inl e \<Rightarrow> (Inl e, m1)
           | Inr tps \<Rightarrow>
               (let m2 = m1\<lparr>touchPoints := tps\<rparr> in
                case parseBatteryStatus l (drv_parseBatteryStatus drv) data (lastBatteryText m2) of
                  (Inl e, txt) \<Rightarrow> (Inl e, m2)
                | (Inr status, txt) \<Rightarrow>
                    (Inr \<lparr> pr_changes = changes, pr_buttonMap = buttonMap inputConfig,
                           pr_touchPoints = tps, pr_batteryStatus = status \<rparr>,
                     m2\<lparr>batteryStatus := status, lastBatteryText := txt\<rparr>))))"

text \<open>
  \<open>setHasChangesToWrite\<close>; the update of the save button in the page is outside the
  manager's state.
\<close>

definition setHasChangesToWrite :: "bool \<Rightarrow> ControllerManager \<Rightarrow> ControllerManager" where
  "setHasChangesToWrite hasChanges m =
     (if Some hasChanges = has_changes_to_write m then m
      else m\<lparr>has_changes_to_write := Some hasChanges\<rparr>)"



definition truthyCode :: "int option \<Rightarrow> bool" where
  "truthyCode c = (case c of None \<Rightarrow> False | Some k \<Rightarrow> k \<noteq> 0)"

definition errorOrEmpty :: "string option \<Rightarrow> string" where
  "errorOrEmpty v = (case v of None \<Rightarrow> [] | Some s \<Rightarrow> s)"

definition js_StringCode :: "int option \<Rightarrow> string" where
  "js_StringCode c = (case c of None \<Rightarrow> ''undefined'' | Some k \<Rightarrow> showInt k)"


definition failureDetail :: "(string \<Rightarrow> string) \<Rightarrow> CalibrationResult \<Rightarrow> string" where
  "failureDetail l res =
     (if truthyCode (cr_code res) then l ''Error '' @ js_StringCode (cr_code res)
      else errorOrEmpty (cr_error res))"

definition calibrateSticksBegin ::
  "(string \<Rightarrow> string) \<Rightarrow> ('d, 'nv) Controller \<Rightarrow> 'd \<Rightarrow> (error + unit) \<times> 'd" where
  "calibrateSticksBegin l drv d =
     (case drv_calibrateSticksBegin drv d of
        (Inl e, d') \<Rightarrow> (Inl e, d')
      | (Inr res, d') \<Rightarrow>
          if \<not> cr_ok res
          then (Inl (Error (l ''Stick calibration failed: '' @ failureDetail l res)), d')
          else (Inr (), d'))"

definition calibrateSticksSample ::
  "(string \<Rightarrow> string) \<Rightarrow> ('d, 'nv) Controller \<Rightarrow> 'd \<Rightarrow> (error + unit) \<times> 'd" where
  "calibrateSticksSample l drv d =
     (case drv_calibrateSticksSample drv d of
        (Inl e, d') \<Rightarrow> (Inl e, d')
      | (Inr res, d') \<Rightarrow>
          if \<not> cr_ok res
          then (Inl (Error (l ''Stick calibration failed: '' @ failureDetail l res)), d')
          else (Inr (), d'))"

definition calibrateSticksEnd ::
  "(string \<Rightarrow> string) \<Rightarrow> ('d, 'nv) Controller \<Rightarrow> ControllerManager \<Rightarrow> 'd
     \<Rightarrow> (error + unit) \<times> ControllerManager \<times> 'd" where
  "calibrateSticksEnd l drv m d =
     (case drv_calibrateSticksEnd drv d of
        (Inl e, d') \<Rightarrow> (Inl e, m, d')
      | (Inr res, d') \<Rightarrow>
          if \<not> cr_ok res
          then (Inl (Error (l ''Stick calibration failed: '' @ failureDetail l res)), m, d')
          else (Inr (), setHasChangesToWrite True m, d'))"

definition EXPECTED_CALIBRATION_ERROR_CODES :: "int list" where
  "EXPECTED_CALIBRATION_ERROR_CODES = [3, 4, 5]"

definition includesCode :: "int list \<Rightarrow> int option \<Rightarrow> bool" where
  "includesCode codes c = (case c of None \<Rightarrow> False | Some k \<Rightarrow> k \<in> set codes)"

text \<open>
  \<open>calibrateRangeOnClose\<close>. The driver's result is read through \<open>res?.\<close>, so a missing
  result (\<open>None\<close>) is handled as a result without fields.
\<close>

definition calibrateRangeOnClose ::
  "(string \<Rightarrow> string) \<Rightarrow> ('d, 'nv) Controller \<Rightarrow> ControllerManager \<Rightarrow> 'd
     \<Rightarrow> (error + CalibrationResponse) \<times> ControllerManager \<times> 'd" where
  "calibrateRangeOnClose l drv m d =
     (case drv_calibrateRangeEnd drv d of
        (Inl e, d') \<Rightarrow> (Inl e, m, d')
      | (Inr res, d') \<Rightarrow>
          (let ok = (case res of None \<Rightarrow> False | Some r \<Rightarrow> cr_ok r);
               code = (case res of None \<Rightarrow> None | Some r \<Rightarrow> cr_code r);
               err = (case res of None \<Rightarrow> None | Some r \<Rightarrow> cr_error r)
           in
           if ok
           then (Inr \<lparr> success = True, message = l ''Range calibration completed'' \<rparr>,
                 setHasChangesToWrite True m, d')
           else if truthyCode code \<and> includesCode EXPECTED_CALIBRATION_ERROR_CODES code
           then (Inr \<lparr> success = True, message = l ''Range calibration window closed'' \<rparr>, m, d')
           else (Inr \<lparr> success = False,
                       message = (if truthyCode code
                                  then l ''Range calibration failed: '' @ l ''Error '' @ js_StringCode code
                                  else l ''Range calibration failed: '' @ errorOrEmpty err) \<rparr>,
                 m, d')))"

text \<open>
  \<open>calibrateSticks\<close>. The progress callback acts on a state \<open>'p\<close> of its own. The sampling
  loop reports \<open>Math.round(30 + ((i + 1) / sampleCount) * 50)\<close>: the quotient is within one
  unit in the last place of a multiple of one fifth, so the rounding sees the rational value.
\<close>

definition sampleCount :: nat where "sampleCount = 5"

definition sampleProgress :: "nat \<Rightarrow> int" where
  "sampleProgress i = round (30 + (of_nat (i + 1) / of_nat sampleCount) * 50 :: rat)"

function calibrateSticksLoop ::
  "(string \<Rightarrow> string) \<Rightarrow> ('d, 'nv) Controller \<Rightarrow> (int \<Rightarrow> 'p \<Rightarrow> 'p) \<Rightarrow> nat \<Rightarrow> 'd \<Rightarrow> 'p
     \<Rightarrow> (error + unit) \<times> 'd \<times> 'p" where
  "calibrateSticksLoop l drv progressCallback i d p =
     (if i < sampleCount then
        (case calibrateSticksSample l drv d of
           (Inl e, d') \<Rightarrow> (Inl e, d', p)
         | (Inr u, d') \<Rightarrow>
             calibrateSticksLoop l drv progressCallback (i + 1) d'
               (progressCallback (sampleProgress i) p))
      else (Inr (), d, p))"
  by pat_completeness auto
termination
  by (relation "measure (\<lambda>(l, drv, progressCallback, i, d, p). sampleCount - i)") auto

definition calibrateSticks ::
  "(string \<Rightarrow> string) \<Rightarrow> ('d, 'nv) Controller \<Rightarrow> (int \<Rightarrow> 'p \<Rightarrow> 'p) \<Rightarrow> ControllerManager \<Rightarrow> 'd \<Rightarrow> 'p
     \<Rightarrow> (error + CalibrationResponse) \<times> ControllerManager \<times> 'd \<times> 'p" where
  "calibrateSticks l drv progressCallback m d p =
     (let p1 = progressCallback 20 p in
      case calibrateSticksBegin l drv d of
        (Inl e, d1) \<Rightarrow> (Inl e, m, d1, p1)
      | (Inr u, d1) \<Rightarrow>
          (let p2 = progressCallback 30 p1 in
           case calibrateSticksLoop l drv progressCallback 0 d1 p2 of
             (Inl e, d2, p3) \<Rightarrow> (Inl e, m, d2, p3)
           | (Inr u, d2, p3) \<Rightarrow>
               (let p4 = progressCallback 90 p3 in
                case calibrateSticksEnd l drv m d2 of
                  (Inl e, m', d3) \<Rightarrow> (Inl e, m', d3, p4)
                | (Inr u, m', d3) \<Rightarrow>
                    (Inr \<lparr> success = True, message = l ''Stick calibration completed'' \<rparr>,
                     m', d3, progressCallback 100 p4))))"

section \<open>The record step as a sequence of writes\<close>

text \<open>
  When every byte it reads is inside the buffer, \<open>_recordButtonStates\<close> performs one
  compare-and-write per tracked key, in a fixed order: \<open>sticks\<close>, the two triggers, the
  four d-pad directions, then the buttons of the map that are not d-pad directions.
\<close>

fun applyWrites :: "(string \<times> jsval) list \<Rightarrow> InputChanges \<times> ButtonStates \<Rightarrow> InputChanges \<times> ButtonStates" where
  "applyWrites [] cs = cs"
| "applyWrites ((k, v) # ws) (ch, st) =
     applyWrites ws (if st k \<noteq> Some v then (ch(k \<mapsto> v), st(k \<mapsto> v)) else (ch, st))"

definition otherButtons :: "ButtonMapping list \<Rightarrow> ButtonMapping list" where
  "otherButtons BUTTON_MAP = filter (\<lambda>btn. bm_name btn \<notin> set dpadDirections) BUTTON_MAP"

definition decodeWrites :: "DataView \<Rightarrow> ButtonMapping list \<Rightarrow> nat \<Rightarrow> nat \<Rightarrow> nat \<Rightarrow> (string \<times> jsval) list" where
  "decodeWrites data BUTTON_MAP dpad_byte l2_analog_byte r2_analog_byte =
     [(''sticks'', JSticks \<lparr> ss_left = \<lparr> sp_x = stickValue (data ! 0), sp_y = stickValue (data ! 1) \<rparr>,
                            ss_right = \<lparr> sp_x = stickValue (data ! 2), sp_y = stickValue (data ! 3) \<rparr> \<rparr>),
      (''l2_analog'', JNum (of_nat (unat (data ! l2_analog_byte)))),
      (''r2_analog'', JNum (of_nat (unat (data ! r2_analog_byte))))]
     @ map (\<lambda>dir. (dir, JBool (dpad_map (data ! dpad_byte AND 0x0f) dir))) dpadDirections
     @ map (\<lambda>btn. (bm_name btn, JBool (uint (data ! bm_byte btn) AND bm_mask btn \<noteq> 0)))
         (otherButtons BUTTON_MAP)"

text \<open>Every offset the record step reads lies inside the buffer.\<close>

definition offsetsOk :: "DataView \<Rightarrow> ButtonMapping list \<Rightarrow> nat \<Rightarrow> nat \<Rightarrow> nat \<Rightarrow> bool" where
  "offsetsOk data BUTTON_MAP dpad_byte l2_analog_byte r2_analog_byte =
     (4 \<le> length data \<and> l2_analog_byte < length data \<and> r2_analog_byte < length data \<and>
      dpad_byte < length data \<and>
      list_all (\<lambda>btn. bm_byte btn < length data) (otherButtons BUTTON_MAP))"

text \<open>The snapshot holds a stick record under \<open>sticks\<close>, as the constructor leaves it.\<close>

definition sticksOk :: "ButtonStates \<Rightarrow> bool" where
  "sticksOk st = (case st ''sticks'' of Some (JSticks cur) \<Rightarrow> True | _ \<Rightarrow> False)"

text \<open>
  A button map names each button once, and none of its buttons under a key the tracker
  uses for the sticks or the analog triggers.
\<close>

definition buttonNamesOk :: "ButtonMapping list \<Rightarrow> bool" where
  "buttonNamesOk BUTTON_MAP =
     (distinct (map bm_name (otherButtons BUTTON_MAP)) \<and>
      list_all (\<lambda>btn. bm_name btn \<noteq> ''sticks'' \<and> bm_name btn \<noteq> ''l2_analog'' \<and>
                       bm_name btn \<noteq> ''r2_analog'') (otherButtons BUTTON_MAP))"

text \<open>
  The byte of the right analog trigger is read for nothing else: it is not a stick byte, not
  the byte of the left trigger or of the d-pad, and not the byte of a button.
\<close>

definition r2ByteApart :: "ButtonMapping list \<Rightarrow> nat \<Rightarrow> nat \<Rightarrow> nat \<Rightarrow> bool" where
  "r2ByteApart BUTTON_MAP dpad_byte l2_analog_byte r2_analog_byte =
     (4 \<le> r2_analog_byte \<and> r2_analog_byte \<noteq> l2_analog_byte \<and> r2_analog_byte \<noteq> dpad_byte \<and>
      list_all (\<lambda>btn. bm_byte btn \<noteq> r2_analog_byte) (otherButtons BUTTON_MAP))"

text \<open>
  Two buffers decode to the same stick values, left-trigger value, d-pad nibble and button
  states: everything the record step tracks except the right trigger.
\<close>

definition othersAgree :: "DataView \<Rightarrow> DataView \<Rightarrow> ButtonMapping list \<Rightarrow> nat \<Rightarrow> nat \<Rightarrow> bool" where
  "othersAgree data data' BUTTON_MAP dpad_byte l2_analog_byte =
     (stickValue (data' ! 0) = stickValue (data ! 0) \<and> stickValue (data' ! 1) = stickValue (data ! 1) \<and>
      stickValue (data' ! 2) = stickValue (data ! 2) \<and> stickValue (data' ! 3) = stickValue (data ! 3) \<and>
      data' ! l2_analog_byte = data ! l2_analog_byte \<and>
      data' ! dpad_byte AND 0x0f = data ! dpad_byte AND 0x0f \<and>
      list_all (\<lambda>btn. (uint (data' ! bm_byte btn) AND bm_mask btn \<noteq> 0)
                        = (uint (data ! bm_byte btn) AND bm_mask btn \<noteq> 0))
        (otherButtons BUTTON_MAP))"

text \<open>The field of a returned change-set under a key.\<close>

definition changeAt :: "string \<Rightarrow> error + InputChanges \<Rightarrow> error + jsval option" where
  "changeAt k r = (case r of Inl e \<Rightarrow> Inl e | Inr ch \<Rightarrow> Inr (ch k))"

text \<open>A step that ran to its end returns the change-set and leaves the snapshot.\<close>

definition returned :: "InputChanges \<times> ButtonStates \<Rightarrow> (error + InputChanges) \<times> ButtonStates" where
  "returned cs = (case cs of (ch, st) \<Rightarrow> (Inr ch, st))"

text \<open>The touchpad bytes, when the layout declares a non-zero offset, lie inside the buffer.\<close>

definition touchOk :: "InputConfig \<Rightarrow> DataView \<Rightarrow> bool" where
  "touchOk cfg data =
     (case touchpadOffset cfg of
        None \<Rightarrow> True
      | Some off \<Rightarrow> off = 0 \<or> off + 2 * TOUCHPAD_BYTES_PER_POINT \<le> length data)"

section \<open>A stub controller and sample data\<close>

text \<open>
  A layout in the shape the drivers supply, a report for it, and a controller whose device
  logs the requests it receives and answers each with one fixed result. They serve as
  concrete instances.
\<close>

definition sampleInputConfig :: InputConfig where
  "sampleInputConfig =
     \<lparr> buttonMap =
         [\<lparr> bm_name = ''up'', bm_byte = 4, bm_mask = 0 \<rparr>,
          \<lparr> bm_name = ''right'', bm_byte = 4, bm_mask = 0 \<rparr>,
          \<lparr> bm_name = ''down'', bm_byte = 4, bm_mask = 0 \<rparr>,
          \<lparr> bm_name = ''left'', bm_byte = 4, bm_mask = 0 \<rparr>,
          \<lparr> bm_name = ''square'', bm_byte = 4, bm_mask = 0x10 \<rparr>,
          \<lparr> bm_name = ''cross'', bm_byte = 4, bm_mask = 0x20 \<rparr>,
          \<lparr> bm_name = ''l1'', bm_byte = 5, bm_mask = 0x01 \<rparr>,
          \<lparr> bm_name = ''r1'', bm_byte = 5, bm_mask = 0x02 \<rparr>],
       dpadByte = 4, l2AnalogByte = 7, r2AnalogByte = 8, touchpadOffset = Some 9 \<rparr>"

definition sampleReport :: DataView where
  "sampleReport =
     [0, 255, 128, 200, 0x18, 0x01, 0x15, 0, 200,
      0x00, 0x34, 0x02, 0x50, 0x80, 0, 0, 0]"

definition stubParseBatteryStatus :: "DataView \<Rightarrow> error + BatteryInfo" where
  "stubParseBatteryStatus data =
     (case getUint8 data 6 of
        Inl e \<Rightarrow> Inl e
      | Inr b \<Rightarrow> Inr \<lparr> bat_capacity = min 100 (uint (b AND 0x0f) * 10),
                       cable_connected = (b AND 0x10 \<noteq> 0),
                       is_charging = (b AND 0x10 \<noteq> 0),
                       is_error = False \<rparr>)"

definition stubController :: "InputConfig \<Rightarrow> CalibrationResult \<Rightarrow> (string list, nat) Controller" where
  "stubController cfg res =
     \<lparr> drv_getInputConfig = cfg,
       drv_parseBatteryStatus = stubParseBatteryStatus,
       drv_queryNvStatus = (\<lambda>d. (Inr (length d), d @ [''queryNvStatus''])),
       drv_nvsLock = (\<lambda>d. (Inr res, d @ [''nvsLock''])),
       drv_calibrateSticksBegin = (\<lambda>d. (Inr res, d @ [''calibrateSticksBegin''])),
       drv_calibrateSticksSample = (\<lambda>d. (Inr res, d @ [''calibrateSticksSample''])),
       drv_calibrateSticksEnd = (\<lambda>d. (Inr res, d @ [''calibrateSticksEnd''])),
       drv_calibrateRangeEnd = (\<lambda>d. (Inr (Some res), d @ [''calibrateRangeEnd''])) \<rparr>"

definition okResult :: CalibrationResult where
  "okResult = \<lparr> cr_ok = True, cr_code = None, cr_error = None \<rparr>"

definition failedResult :: "int option \<Rightarrow> string option \<Rightarrow> CalibrationResult" where
  "failedResult c e = \<lparr> cr_ok = False, cr_code = c, cr_error = e \<rparr>"

text \<open>A controller whose stick-calibration requests all succeed, whatever the device state.\<close>

definition alwaysOk :: "('d, 'nv) Controller \<Rightarrow> bool" where
  "alwaysOk drv =
     (\<forall>d. (\<exists>r d'. drv_calibrateSticksBegin drv d = (Inr r, d') \<and> cr_ok r) \<and>
          (\<exists>r d'. drv_calibrateSticksSample drv d = (Inr r, d') \<and> cr_ok r) \<and>
          (\<exists>r d'. drv_calibrateSticksEnd drv d = (Inr r, d') \<and> cr_ok r))"


section \<open>Bit-level facts\<close>

lemma uint_u8_bounds: "0 \<le> uint (b::u8)" "uint (b::u8) < 256"
  using uint_bounded[of b] by simp_all

lemma sint_toInt32: "sint (toInt32 b) = uint b"
proof -
  have "sint (toInt32 b) = signed_take_bit 31 (uint b)"
    by (simp add: toInt32_def signed_ucast_eq)
  also have "\<dots> = uint b"
  proof (rule signed_take_bit_int_eq_self)
    show "- (2 ^ 31) \<le> uint b" by (rule order_trans[of _ 0]) simp_all
    show "uint b < 2 ^ 31" by (rule less_trans[OF uint_u8_bounds(2)]) simp
  qed
  finally show ?thesis .
qed

lemma int_and_15: "(k::int) AND 15 = k mod 16"
proof -
  have "k AND mask 4 = take_bit 4 k" by (simp only: take_bit_eq_mask)
  then show ?thesis by (simp add: take_bit_eq_mod mask_eq_exp_minus_1)
qed

lemma int_and_127: "(k::int) AND 127 = k mod 128"
proof -
  have "k AND mask 7 = take_bit 7 k" by (simp only: take_bit_eq_mask)
  then show ?thesis by (simp add: take_bit_eq_mod mask_eq_exp_minus_1)
qed

lemma int_and_128: 
  assumes "0 \<le> k" "k < 256" shows "((k::int) AND 128 = 0) = (k div 128 = 0)"
proof -
  have "(k AND 2 ^ 7 = 0) = (\<not> bit k 7)" by (rule and_exp_eq_0_iff_not_bit)
  moreover have "bit k 7 = odd (k div 128)" by (simp add: bit_iff_odd)
  moreover have "k div 128 = 0 \<or> k div 128 = 1" using assms by auto
  ultimately show ?thesis by auto
qed

lemma int_push_or:
  assumes "0 \<le> b" "b < 2 ^ n" shows "push_bit n (a::int) OR b = a * 2 ^ n + b"
proof -
  have b: "take_bit n b = b" using assms by (simp add: take_bit_int_eq_self)
  have "push_bit n a AND take_bit n b = 0"
    by (auto simp add: bit_eq_iff bit_simps)
  then have "push_bit n a + b = push_bit n a OR b"
    using b by (intro disjunctive_add_eq_or) simp
  then show ?thesis by (simp add: push_bit_eq_mult)
qed

lemma sint_push_small:
  assumes "0 \<le> sint w" "sint w * 2 ^ n < 2 ^ 31"
  shows "sint (push_bit n (w :: 32 word)) = sint w * 2 ^ n"
proof -
  have "sint (push_bit n w) = signed_take_bit 31 (push_bit n (sint w))"
    by (simp add: signed_push_bit_eq)
  also have "\<dots> = push_bit n (sint w)"
  proof (rule signed_take_bit_int_eq_self)
    have "0 \<le> sint w * 2 ^ n" using assms(1) by simp
    then show "- (2 ^ 31) \<le> push_bit n (sint w)" by (simp add: push_bit_eq_mult)
    show "push_bit n (sint w) < 2 ^ 31" using assms(2) by (simp add: push_bit_eq_mult)
  qed
  finally show ?thesis by (simp add: push_bit_eq_mult)
qed

lemma tp_active_eq: "(toInt32 b0 AND TOUCHPAD_ACTIVE_MASK = 0) = (unat b0 div 128 = 0)"
proof -
  have "(toInt32 b0 AND TOUCHPAD_ACTIVE_MASK = 0) = (sint (toInt32 b0 AND TOUCHPAD_ACTIVE_MASK) = 0)"
    by (simp only: signed_eq_0_iff)
  also have "\<dots> = (uint b0 AND 128 = 0)"
    by (simp add: signed_and_eq sint_toInt32 TOUCHPAD_ACTIVE_MASK_def)
  also have "\<dots> = (uint b0 div 128 = 0)"
    using uint_u8_bounds[of b0] by (rule int_and_128)
  also have "\<dots> = (unat b0 div 128 = 0)"
  proof -
    have "uint b0 div 128 = int (unat b0 div 128)"
      by (simp add: zdiv_int)
    then show ?thesis by (simp only: of_nat_eq_0_iff)
  qed
  finally show ?thesis .
qed

lemma tp_id_eq: "sint (toInt32 b0 AND TOUCHPAD_ID_MASK) = int (unat b0 mod 128)"
  by (simp add: signed_and_eq sint_toInt32 TOUCHPAD_ID_MASK_def int_and_127 zmod_int)

lemma tp_x_eq:
  "sint (push_bit 8 (toInt32 b2 AND TOUCHPAD_X_LOW_MASK) OR toInt32 b1)
     = int ((unat b2 mod 16) * 256 + unat b1)"
proof -
  have lo: "sint (toInt32 b2 AND TOUCHPAD_X_LOW_MASK) = uint b2 mod 16"
    by (simp add: signed_and_eq sint_toInt32 TOUCHPAD_X_LOW_MASK_def int_and_15)
  have "sint (push_bit 8 (toInt32 b2 AND TOUCHPAD_X_LOW_MASK)) = (uint b2 mod 16) * 2 ^ 8"
    using sint_push_small[of "toInt32 b2 AND TOUCHPAD_X_LOW_MASK" 8] unfolding lo
    by simp
  then have "sint (push_bit 8 (toInt32 b2 AND TOUCHPAD_X_LOW_MASK) OR toInt32 b1)
      = push_bit 8 (uint b2 mod 16) OR uint b1"
    by (simp add: signed_or_eq sint_toInt32 push_bit_eq_mult)
  also have "\<dots> = (uint b2 mod 16) * 2 ^ 8 + uint b1"
    using uint_u8_bounds[of b1] by (intro int_push_or) simp_all
  finally show ?thesis by (simp add: zmod_int)
qed

lemma tp_y_eq:
  "sint (push_bit TOUCHPAD_Y_SHIFT (toInt32 b3) OR signed_drop_bit TOUCHPAD_Y_SHIFT (toInt32 b2))
     = int (unat b3 * 16 + unat b2 div 16)"
proof -
  have hi: "sint (push_bit 4 (toInt32 b3)) = uint b3 * 2 ^ 4"
    using sint_push_small[of "toInt32 b3" 4] uint_u8_bounds[of b3] by (simp add: sint_toInt32)
  have lo: "sint (signed_drop_bit 4 (toInt32 b2)) = uint b2 div 2 ^ 4"
    by (simp add: sint_signed_drop_bit_eq sint_toInt32 drop_bit_eq_div)
  have "sint (push_bit 4 (toInt32 b3) OR signed_drop_bit 4 (toInt32 b2))
      = push_bit 4 (uint b3) OR (uint b2 div 2 ^ 4)"
    using hi lo by (simp add: signed_or_eq push_bit_eq_mult)
  also have "\<dots> = uint b3 * 2 ^ 4 + uint b2 div 2 ^ 4"
  proof (rule int_push_or)
    show "0 \<le> uint b2 div 2 ^ 4" using uint_u8_bounds(1)[of b2] by (simp add: pos_imp_zdiv_nonneg_iff)
    show "uint b2 div 2 ^ 4 < 2 ^ 4" using uint_u8_bounds(2)[of b2] by simp
  qed
  finally show ?thesis by (simp add: TOUCHPAD_Y_SHIFT_def zdiv_int)
qed

lemma tp_refine: "touchPointOf b0 b1 b2 b3 = spec_touchPoint (unat b0) (unat b1) (unat b2) (unat b3)"
  unfolding touchPointOf_def spec_touchPoint_def
  by (simp only: tp_active_eq tp_id_eq tp_x_eq tp_y_eq)

lemma stick_int: "stickValue v = of_int ((50 * uint v - 6343) div 64) / 100"
proof -
  have "(((of_nat (unat v) - 127.5) / 128) * 100 :: rat) + 1/2 = of_int (50 * uint v - 6343) / of_int 64"
    by (simp add: field_simps)
  then have "round (((of_nat (unat v) - 127.5) / 128) * 100 :: rat) = (50 * uint v - 6343) div 64"
    unfolding round_def by (simp only: floor_divide_of_int_eq)
  then show ?thesis by (simp add: stickValue_def)
qed

section \<open>Touchpad and stick decoding\<close>

lemma parseTouchPoint_in_range:
  "base + 4 \<le> length data \<Longrightarrow>
   parseTouchPoint data base
     = Inr (touchPointOf (data ! base) (data ! (base + 1)) (data ! (base + 2)) (data ! (base + 3)))"
  by (simp add: parseTouchPoint_def getUint8_def)

lemma parseTouchPoints_in_range:
  assumes "offset + 8 \<le> length data"
  shows "parseTouchPoints data offset
     = Inr [touchPointOf (data ! offset) (data ! (offset + 1)) (data ! (offset + 2)) (data ! (offset + 3)),
            touchPointOf (data ! (offset + 4)) (data ! (offset + 4 + 1)) (data ! (offset + 4 + 2))
              (data ! (offset + 4 + 3))]"
proof -
  let ?q0 = "touchPointOf (data ! offset) (data ! (offset + 1)) (data ! (offset + 2)) (data ! (offset + 3))"
  let ?q1 = "touchPointOf (data ! (offset + 4)) (data ! (offset + 4 + 1)) (data ! (offset + 4 + 2))
              (data ! (offset + 4 + 3))"
  have "offset + 4 \<le> length data" using assms by simp
  then have p0: "parseTouchPoint data offset = Inr ?q0"
    by (rule parseTouchPoint_in_range)
  have "offset + 4 + 4 \<le> length data" using assms by simp
  then have p1: "parseTouchPoint data (offset + 4) = Inr ?q1"
    by (rule parseTouchPoint_in_range)
  have stop: "parseTouchPointsLoop data offset 2 ps = Inr ps" for ps
    by (subst parseTouchPointsLoop.simps[of data offset 2]) (simp add: TOUCHPAD_MAX_POINTS_def)
  have step1: "parseTouchPointsLoop data offset 1 ps = parseTouchPointsLoop data offset 2 (ps @ [?q1])" for ps
    by (subst parseTouchPointsLoop.simps[of data offset 1])
       (simp add: TOUCHPAD_MAX_POINTS_def TOUCHPAD_BYTES_PER_POINT_def p1)
  have step0: "parseTouchPointsLoop data offset 0 ps = parseTouchPointsLoop data offset 1 (ps @ [?q0])" for ps
    by (subst parseTouchPointsLoop.simps[of data offset 0])
       (simp add: TOUCHPAD_MAX_POINTS_def p0)
  show ?thesis
    unfolding parseTouchPoints_def step0 step1 stop by simp
qed

text \<open>
  Claim C2. When the buffer holds the eight touchpad bytes at the declared offset,
  \<open>_parseTouchPoints\<close> returns two points, point \<open>i\<close> decoded from the four bytes at
  \<open>offset + 4 * i\<close>: active when the high bit of byte 0 is clear, id the low seven bits of
  byte 0, x the low nibble of byte 2 above byte 1, y byte 3 above the high nibble of byte 2.
  The bytes 0x00, 0x34, 0x02, 0x50 decode to an active point with id 0, x 564 and y 1280.
\<close>

theorem parseTouchPoints_bit_layout:
  assumes "offset + 8 \<le> length data"
  shows "parseTouchPoints data offset
           = Inr (map (\<lambda>i. spec_touchPoint (unat (data ! (offset + 4 * i))) (unat (data ! (offset + 4 * i + 1)))
                                (unat (data ! (offset + 4 * i + 2))) (unat (data ! (offset + 4 * i + 3)))) [0, 1]) \<and>
         touchPointOf 0x00 0x34 0x02 0x50 = \<lparr> tp_active = True, tp_id = 0, tp_x = 564, tp_y = 1280 \<rparr>"
proof -
  have "touchPointOf 0x00 0x34 0x02 0x50 = \<lparr> tp_active = True, tp_id = 0, tp_x = 564, tp_y = 1280 \<rparr>"
    by (simp add: tp_refine spec_touchPoint_def)
  moreover have "parseTouchPoints data offset
           = Inr (map (\<lambda>i. spec_touchPoint (unat (data ! (offset + 4 * i))) (unat (data ! (offset + 4 * i + 1)))
                                (unat (data ! (offset + 4 * i + 2))) (unat (data ! (offset + 4 * i + 3)))) [0, 1])"
    unfolding parseTouchPoints_in_range[OF assms] tp_refine by simp
  ultimately show ?thesis by (rule conjI[rotated])
qed

theorem parseTouchPoints_bit_layout_witness:
  "parseTouchPoints [0x00, 0x34, 0x02, 0x50, 0x81, 0xff, 0xff, 0xff] 0
     = Inr [\<lparr> tp_active = True, tp_id = 0, tp_x = 564, tp_y = 1280 \<rparr>,
            \<lparr> tp_active = False, tp_id = 1, tp_x = 4095, tp_y = 4095 \<rparr>]"
  using parseTouchPoints_bit_layout[of 0 "[0x00, 0x34, 0x02, 0x50, 0x81, 0xff, 0xff, 0xff]"]
  by (simp add: spec_touchPoint_def)

lemma stickValue_near:
  "\<bar>stickValue v - (of_nat (unat v) - 127.5) / 128\<bar> \<le> 1 / 200"
proof -
  define t :: rat where "t = ((of_nat (unat v) - 127.5) / 128) * 100"
  define a where "a = stickValue v - (of_nat (unat v) - 127.5) / 128"
  define b where "b = of_int (round t) - t"
  have half: "\<bar>b\<bar> \<le> 1 / 2" unfolding b_def by (rule of_int_round_abs_le)
  have "stickValue v = of_int (round t) / 100" by (simp add: stickValue_def t_def)
  moreover have "(of_nat (unat v) - 127.5) / 128 = t / 100" by (simp add: t_def)
  ultimately have "a = b / 100"
    unfolding a_def b_def by (simp only: diff_divide_distrib)
  then have "\<bar>a\<bar> = \<bar>b\<bar> / 100" by simp
  also have "\<dots> \<le> (1 / 2) / 100" using half by (rule divide_right_mono) simp
  finally show ?thesis unfolding a_def by simp
qed

section \<open>Calibration and NVS operations\<close>

text \<open>
  Claim C1. When the driver's range-calibration end result is not ok, \<open>calibrateRangeOnClose\<close>
  returns success with the message "Range calibration window closed" if the result carries
  code 3, 4 or 5, and a failure response for every other code and for no code.
\<close>

theorem calibrateRangeOnClose_expected_codes:
  assumes "drv_calibrateRangeEnd drv d = (Inr (Some r), d')" and "\<not> cr_ok r"
  shows "(cr_code r \<in> {Some 3, Some 4, Some 5} \<longrightarrow>
            fst (calibrateRangeOnClose l drv m d)
              = Inr \<lparr> success = True, message = l ''Range calibration window closed'' \<rparr>) \<and>
         (cr_code r \<notin> {Some 3, Some 4, Some 5} \<longrightarrow>
            (\<exists>msg. fst (calibrateRangeOnClose l drv m d) = Inr \<lparr> success = False, message = msg \<rparr>))"
  using assms
  by (auto simp add: calibrateRangeOnClose_def Let_def truthyCode_def includesCode_def
        EXPECTED_CALIBRATION_ERROR_CODES_def split: option.splits)

theorem calibrateRangeOnClose_expected_codes_witness:
  "fst (calibrateRangeOnClose id (stubController sampleInputConfig (failedResult (Some 4) None)) newControllerManager [])
     = Inr \<lparr> success = True, message = ''Range calibration window closed'' \<rparr> \<and>
   (\<exists>msg. fst (calibrateRangeOnClose id (stubController sampleInputConfig (failedResult (Some 7) None)) newControllerManager [])
     = Inr \<lparr> success = False, message = msg \<rparr>)"
  using calibrateRangeOnClose_expected_codes
          [of "stubController sampleInputConfig (failedResult (Some 4) None)" "[]" "failedResult (Some 4) None"
              "[''calibrateRangeEnd'']" id newControllerManager]
        calibrateRangeOnClose_expected_codes
          [of "stubController sampleInputConfig (failedResult (Some 7) None)" "[]" "failedResult (Some 7) None"
              "[''calibrateRangeEnd'']" id newControllerManager]
  by (simp add: stubController_def failedResult_def)

text \<open>
  Claim C10. A result that is not ok and carries code 3, 4 or 5 makes
  \<open>calibrateRangeOnClose\<close> return success and leave the manager, and with it
  \<open>has_changes_to_write\<close>, as it was; no result that is not ok changes the flag; an ok result
  sets it to true.
\<close>

theorem calibrateRangeOnClose_changes_flag:
  assumes "drv_calibrateRangeEnd drv d = (Inr (Some r), d')"
  shows "(\<not> cr_ok r \<and> cr_code r \<in> {Some 3, Some 4, Some 5} \<longrightarrow>
            calibrateRangeOnClose l drv m d
              = (Inr \<lparr> success = True, message = l ''Range calibration window closed'' \<rparr>, m, d')) \<and>
         (\<not> cr_ok r \<longrightarrow>
            has_changes_to_write (fst (snd (calibrateRangeOnClose l drv m d))) = has_changes_to_write m) \<and>
         (cr_ok r \<longrightarrow>
            has_changes_to_write (fst (snd (calibrateRangeOnClose l drv m d))) = Some True)"
  using assms
  by (auto simp add: calibrateRangeOnClose_def Let_def truthyCode_def includesCode_def
        EXPECTED_CALIBRATION_ERROR_CODES_def setHasChangesToWrite_def split: option.splits)


lemma sampleProgress_eq: "sampleProgress i = 30 + 10 * (int i + 1)"
proof -
  have "(30 + (of_nat (i + 1) / of_nat sampleCount) * 50 :: rat) = of_int (30 + 10 * (int i + 1))"
    by (simp add: sampleCount_def field_simps)
  then show ?thesis unfolding sampleProgress_def by (simp only: round_of_int)
qed

lemma calibrateSticksLoop_ok:
  assumes "fst (calibrateSticksLoop l drv cb i d p) = Inr u"
  shows "snd (snd (calibrateSticksLoop l drv cb i d p))
           = fold cb (map sampleProgress [i ..< sampleCount]) p"
  using assms
proof (induction l drv cb i d p rule: calibrateSticksLoop.induct)
  case (1 l drv cb i d p)
  show ?case
  proof (cases "i < sampleCount")
    case False
    then show ?thesis by (simp add: calibrateSticksLoop.simps)
  next
    case True
    obtain r d' where s: "calibrateSticksSample l drv d = (r, d')" by (cases "calibrateSticksSample l drv d")
    show ?thesis
    proof (cases r)
      case (Inl e)
      with True s "1.prems" show ?thesis by (simp add: calibrateSticksLoop.simps[of l drv cb i d p])
    next
      case (Inr v)
      have "fst (calibrateSticksLoop l drv cb (i + 1) d' (cb (sampleProgress i) p)) = Inr u"
        using True s Inr "1.prems" by (simp add: calibrateSticksLoop.simps[of l drv cb i d p])
      then have "snd (snd (calibrateSticksLoop l drv cb (i + 1) d' (cb (sampleProgress i) p)))
           = fold cb (map sampleProgress [i + 1 ..< sampleCount]) (cb (sampleProgress i) p)"
        using "1.IH"[OF True s[symmetric] Inr] by simp
      moreover have "[i ..< sampleCount] = i # [i + 1 ..< sampleCount]"
        using True by (simp add: upt_rec)
      ultimately show ?thesis
        using True s Inr by (simp add: calibrateSticksLoop.simps[of l drv cb i d p])
    qed
  qed
qed

lemma calibrateSticks_progress:
  assumes "fst (calibrateSticks l drv cb m d p) = Inr r"
  shows "snd (snd (snd (calibrateSticks l drv cb m d p)))
           = fold cb [20, 30, 40, 50, 60, 70, 80, 90, 100] p"
proof -
  obtain b d1 where b: "calibrateSticksBegin l drv d = (b, d1)" by (cases "calibrateSticksBegin l drv d")
  obtain lp d2 p3 where lp: "calibrateSticksLoop l drv cb 0 d1 (cb 30 (cb 20 p)) = (lp, d2, p3)"
    by (cases "calibrateSticksLoop l drv cb 0 d1 (cb 30 (cb 20 p))")
  obtain e m' d3 where e: "calibrateSticksEnd l drv m d2 = (e, m', d3)" by (cases "calibrateSticksEnd l drv m d2")
  from assms b obtain ub where ub: "b = Inr ub"
    by (cases b) (simp_all add: calibrateSticks_def Let_def)
  from assms b ub lp obtain ul where ul: "lp = Inr ul"
    by (cases lp) (simp_all add: calibrateSticks_def Let_def)
  from assms b ub lp ul e obtain ue where ue: "e = Inr ue"
    by (cases e) (simp_all add: calibrateSticks_def Let_def)
  have "[0 ..< sampleCount] = [0, 1, 2, 3, 4]"
    by (simp add: sampleCount_def upt_rec)
  then have "p3 = fold cb [40, 50, 60, 70, 80] (cb 30 (cb 20 p))"
    using calibrateSticksLoop_ok[of l drv cb 0 d1 "cb 30 (cb 20 p)" ul] lp ul
    by (simp add: sampleProgress_eq)
  then show ?thesis
    using b ub lp ul e ue by (simp add: calibrateSticks_def Let_def)
qed

lemma calibrateSticksLoop_always_ok:
  assumes "alwaysOk drv"
  shows "fst (calibrateSticksLoop l drv cb i d p) = Inr ()"
  using assms
proof (induction l drv cb i d p rule: calibrateSticksLoop.induct)
  case (1 l drv cb i d p)
  show ?case
  proof (cases "i < sampleCount")
    case False
    then show ?thesis by (subst calibrateSticksLoop.simps) simp
  next
    case True
    from "1.prems" obtain r d' where "drv_calibrateSticksSample drv d = (Inr r, d')" "cr_ok r"
      unfolding alwaysOk_def by blast
    then have s: "calibrateSticksSample l drv d = (Inr (), d')"
      by (simp add: calibrateSticksSample_def)
    show ?thesis
      using "1.IH"[OF True s[symmetric] refl "1.prems"] True s
      by (subst calibrateSticksLoop.simps) simp
  qed
qed

lemma calibrateSticks_always_ok:
  assumes "alwaysOk drv"
  shows "fst (calibrateSticks l drv cb m d p)
           = Inr \<lparr> success = True, message = l ''Stick calibration completed'' \<rparr>"
proof -
  from assms obtain r d1 where "drv_calibrateSticksBegin drv d = (Inr r, d1)" "cr_ok r"
    unfolding alwaysOk_def by blast
  then have b: "calibrateSticksBegin l drv d = (Inr (), d1)"
    by (simp add: calibrateSticksBegin_def)
  obtain lp d2 p3 where lp: "calibrateSticksLoop l drv cb 0 d1 (cb 30 (cb 20 p)) = (lp, d2, p3)"
    by (cases "calibrateSticksLoop l drv cb 0 d1 (cb 30 (cb 20 p))")
  then have lpok: "lp = Inr ()"
    using calibrateSticksLoop_always_ok[OF assms, of l cb 0 d1 "cb 30 (cb 20 p)"] by simp
  from assms obtain r' d3 where "drv_calibrateSticksEnd drv d2 = (Inr r', d3)" "cr_ok r'"
    unfolding alwaysOk_def by blast
  then have e: "calibrateSticksEnd l drv m d2 = (Inr (), setHasChangesToWrite True m, d3)"
    by (simp add: calibrateSticksEnd_def)
  show ?thesis
    using b lp lpok e by (simp add: calibrateSticks_def Let_def)
qed

lemma stub_alwaysOk: "alwaysOk (stubController cfg okResult)"
  by (simp add: alwaysOk_def stubController_def okResult_def)

text \<open>
  Claim C7. On a run of \<open>calibrateSticks\<close> that returns its response (begin, the five
  samples and end all answered ok), a progress callback that records its arguments has been
  called with 20, 30, 40, 50, 60, 70, 80, 90, 100 in this order: strictly increasing, within
  0..100, from 20 to 100.
\<close>

theorem calibrateSticks_progress_sequence:
  assumes "fst (calibrateSticks l drv (\<lambda>v log. log @ [v]) m d []) = Inr r"
  shows "snd (snd (snd (calibrateSticks l drv (\<lambda>v log. log @ [v]) m d [])))
           = [20, 30, 40, 50, 60, 70, 80, 90, 100] \<and>
         sorted_wrt (<) (snd (snd (snd (calibrateSticks l drv (\<lambda>v log. log @ [v]) m d [])))) \<and>
         list_all (\<lambda>v. 0 \<le> v \<and> v \<le> 100)
           (snd (snd (snd (calibrateSticks l drv (\<lambda>v log. log @ [v]) m d []))))"
  using calibrateSticks_progress[OF assms] by simp

theorem calibrateSticks_progress_sequence_witness:
  "fst (calibrateSticks id (stubController sampleInputConfig okResult) (\<lambda>v log. log @ [v]) newControllerManager [] [])
     = Inr \<lparr> success = True, message = ''Stick calibration completed'' \<rparr> \<and>
   snd (snd (snd (calibrateSticks id (stubController sampleInputConfig okResult) (\<lambda>v log. log @ [v])
                    newControllerManager [] [])))
     = [20, 30, 40, 50, 60, 70, 80, 90, 100]"
proof -
  have ok: "fst (calibrateSticks id (stubController sampleInputConfig okResult) (\<lambda>v log. log @ [v])
                  newControllerManager [] [])
     = Inr \<lparr> success = True, message = ''Stick calibration completed'' \<rparr>"
    using calibrateSticks_always_ok[OF stub_alwaysOk, of id sampleInputConfig] by simp
  show ?thesis
    using ok calibrateSticks_progress_sequence[OF ok] by simp
qed

theorem calibrateRangeOnClose_changes_flag_witness:
  "calibrateRangeOnClose id (stubController sampleInputConfig (failedResult (Some 3) None)) newControllerManager []
     = (Inr \<lparr> success = True, message = ''Range calibration window closed'' \<rparr>, newControllerManager,
        [''calibrateRangeEnd'']) \<and>
   has_changes_to_write (fst (snd (calibrateRangeOnClose id (stubController sampleInputConfig okResult)
        newControllerManager []))) = Some True"
  using calibrateRangeOnClose_changes_flag
          [of "stubController sampleInputConfig (failedResult (Some 3) None)" "[]" "failedResult (Some 3) None"
              "[''calibrateRangeEnd'']" id newControllerManager]
        calibrateRangeOnClose_changes_flag
          [of "stubController sampleInputConfig okResult" "[]" okResult
              "[''calibrateRangeEnd'']" id newControllerManager]
  by (simp add: stubController_def failedResult_def okResult_def)


section \<open>The record step as compare-and-write\<close>

lemma sticksChanged_record:
  "sticksChanged (Some (JSticks cur)) newValues = Inr (cur \<noteq> newValues)"
  by (cases cur, cases newValues, cases "ss_left cur", cases "ss_right cur",
      cases "ss_left newValues", cases "ss_right newValues")
     (auto simp add: sticksChanged_def)

lemma readSticks_short: "length data < 4 \<Longrightarrow> readSticks data = Inl RangeError"
  by (auto simp add: readSticks_def getUint8_def split: sum.splits if_splits)

lemma readSticks_in_range:
  "4 \<le> length data \<Longrightarrow>
   readSticks data = Inr \<lparr> ss_left = \<lparr> sp_x = stickValue (data ! 0), sp_y = stickValue (data ! 1) \<rparr>,
                            ss_right = \<lparr> sp_x = stickValue (data ! 2), sp_y = stickValue (data ! 3) \<rparr> \<rparr>"
proof -
  assume "4 \<le> length data"
  then have "0 < length data" "1 < length data" "2 < length data" "3 < length data"
    by linarith+
  then show ?thesis
    unfolding readSticks_def getUint8_def by (simp only: if_True sum.case)
qed

lemma sticksOk_iff: "sticksOk st = (\<exists>cur. st ''sticks'' = Some (JSticks cur))"
  by (auto simp add: sticksOk_def split: option.splits jsval.splits)

lemma applyWrites_append:
  "applyWrites (ws @ ws') cs = applyWrites ws' (applyWrites ws cs)"
  by (induction ws cs rule: applyWrites.induct) simp_all

lemma recordSticks_short:
  "length data < 4 \<Longrightarrow> recordSticks data st ch = (Inl RangeError, st)"
  by (simp add: recordSticks_def readSticks_short)

lemma recordSticks_not_ok:
  "4 \<le> length data \<Longrightarrow> \<not> sticksOk st \<Longrightarrow> recordSticks data st ch = (Inl TypeError, st)"
  by (auto simp add: recordSticks_def readSticks_in_range sticksOk_def sticksChanged_def
        split: option.splits jsval.splits)

lemma recordSticks_writes:
  assumes "4 \<le> length data" and "sticksOk st"
  shows "recordSticks data st ch =
     returned (applyWrites
       [(''sticks'', JSticks \<lparr> ss_left = \<lparr> sp_x = stickValue (data ! 0), sp_y = stickValue (data ! 1) \<rparr>,
                               ss_right = \<lparr> sp_x = stickValue (data ! 2), sp_y = stickValue (data ! 3) \<rparr> \<rparr>)]
       (ch, st))"
proof -
  from assms(2) obtain cur where cur: "st ''sticks'' = Some (JSticks cur)"
    unfolding sticksOk_iff by blast
  show ?thesis
    using cur
    by (auto simp add: recordSticks_def readSticks_in_range[OF assms(1)] sticksChanged_record returned_def)
qed

lemma recordTrigger_short:
  "\<not> byte < length data \<Longrightarrow> recordTrigger data name byte st ch = (Inl RangeError, st)"
  by (simp add: recordTrigger_def getUint8_def)

lemma recordTrigger_writes:
  "byte < length data \<Longrightarrow>
   recordTrigger data name byte st ch
     = returned (applyWrites [(name, JNum (of_nat (unat (data ! byte))))] (ch, st))"
  by (auto simp add: recordTrigger_def getUint8_def returned_def Let_def)

lemma fold_recordPressed:
  "fold (\<lambda>dir. recordPressed dir (f dir)) dirs cs = applyWrites (map (\<lambda>dir. (dir, JBool (f dir))) dirs) cs"
proof (induction dirs arbitrary: cs)
  case Nil
  show ?case by simp
next
  case (Cons dir dirs)
  obtain ch st where cs: "cs = (ch, st)" by (cases cs)
  show ?case
    unfolding cs
    by (simp only: fold_Cons comp_apply list.map Cons.IH) (simp add: recordPressed_def)
qed

lemma recordDpad_short:
  "\<not> dpad_byte < length data \<Longrightarrow> recordDpad data dpad_byte st ch = (Inl RangeError, st)"
  by (simp add: recordDpad_def getUint8_def)

lemma recordDpad_writes:
  "dpad_byte < length data \<Longrightarrow>
   recordDpad data dpad_byte st ch
     = returned (applyWrites
         (map (\<lambda>dir. (dir, JBool (dpad_map (data ! dpad_byte AND 0x0f) dir))) dpadDirections) (ch, st))"
  by (simp add: recordDpad_def getUint8_def Let_def fold_recordPressed returned_def)

lemma recordButtons_writes:
  "list_all (\<lambda>btn. bm_byte btn < length data) (otherButtons BUTTON_MAP) \<Longrightarrow>
   recordButtons data BUTTON_MAP st ch
     = returned (applyWrites
         (map (\<lambda>btn. (bm_name btn, JBool (uint (data ! bm_byte btn) AND bm_mask btn \<noteq> 0)))
            (otherButtons BUTTON_MAP)) (ch, st))"
proof (induction BUTTON_MAP arbitrary: st ch)
  case Nil
  show ?case by (simp add: otherButtons_def returned_def)
next
  case (Cons btn rest)
  show ?case
  proof (cases "bm_name btn \<in> set dpadDirections")
    case True
    then show ?thesis using Cons by (simp add: otherButtons_def)
  next
    case False
    then have here: "bm_byte btn < length data"
      and rest: "list_all (\<lambda>btn. bm_byte btn < length data) (otherButtons rest)"
      using Cons.prems by (simp_all add: otherButtons_def)
    show ?thesis
      using False here Cons.IH[OF rest]
      by (simp add: otherButtons_def getUint8_def recordPressed_def)
  qed
qed

lemma recordButtons_short:
  "\<not> list_all (\<lambda>btn. bm_byte btn < length data) (otherButtons BUTTON_MAP) \<Longrightarrow>
   fst (recordButtons data BUTTON_MAP st ch) = Inl RangeError"
proof (induction BUTTON_MAP arbitrary: st ch)
  case Nil
  then show ?case by (simp add: otherButtons_def)
next
  case (Cons btn rest)
  show ?case
  proof (cases "bm_name btn \<in> set dpadDirections")
    case True
    then show ?thesis using Cons by (simp add: otherButtons_def)
  next
    case False
    show ?thesis
    proof (cases "bm_byte btn < length data")
      case short: False
      then show ?thesis using False by (simp add: getUint8_def)
    next
      case True
      then have "\<not> list_all (\<lambda>btn. bm_byte btn < length data) (otherButtons rest)"
        using False Cons.prems by (simp add: otherButtons_def)
      then show ?thesis
        using False True Cons.IH by (simp add: getUint8_def split: prod.splits)
    qed
  qed
qed

lemma seq_writes:
  assumes "f st ch = returned (applyWrites ws (ch, st))"
    and "\<And>st' ch'. g st' ch' = returned (applyWrites ws' (ch', st'))"
  shows "seq f g st ch = returned (applyWrites (ws @ ws') (ch, st))"
  using assms by (simp add: seq_def returned_def applyWrites_append split: prod.splits)

lemma tail_writes:
  assumes "l2 < length data" "r2 < length data" "dp < length data"
    and "list_all (\<lambda>btn. bm_byte btn < length data) (otherButtons bm)"
  shows "seq (recordTrigger data ''l2_analog'' l2)
           (seq (recordTrigger data ''r2_analog'' r2)
             (seq (recordDpad data dp) (recordButtons data bm))) st ch
         = returned (applyWrites
             ([(''l2_analog'', JNum (of_nat (unat (data ! l2))))] @
              [(''r2_analog'', JNum (of_nat (unat (data ! r2))))] @
              map (\<lambda>dir. (dir, JBool (dpad_map (data ! dp AND 0x0f) dir))) dpadDirections @
              map (\<lambda>btn. (bm_name btn, JBool (uint (data ! bm_byte btn) AND bm_mask btn \<noteq> 0)))
                (otherButtons bm)) (ch, st))"
  by (intro seq_writes recordTrigger_writes recordDpad_writes recordButtons_writes assms)

lemma recordButtonStates_writes:
  assumes "offsetsOk data bm dp l2 r2" and "sticksOk st"
  shows "recordButtonStates st data bm dp l2 r2
           = returned (applyWrites (decodeWrites data bm dp l2 r2) (Map.empty, st))"
proof -
  from assms(1) have len: "4 \<le> length data" and l2: "l2 < length data" and r2: "r2 < length data"
    and dp: "dp < length data"
    and bs: "list_all (\<lambda>btn. bm_byte btn < length data) (otherButtons bm)"
    by (simp_all add: offsetsOk_def)
  have "recordButtonStates st data bm dp l2 r2
      = returned (applyWrites
          ([(''sticks'', JSticks \<lparr> ss_left = \<lparr> sp_x = stickValue (data ! 0), sp_y = stickValue (data ! 1) \<rparr>,
                                  ss_right = \<lparr> sp_x = stickValue (data ! 2), sp_y = stickValue (data ! 3) \<rparr> \<rparr>)]
           @ ([(''l2_analog'', JNum (of_nat (unat (data ! l2))))] @
              [(''r2_analog'', JNum (of_nat (unat (data ! r2))))] @
              map (\<lambda>dir. (dir, JBool (dpad_map (data ! dp AND 0x0f) dir))) dpadDirections @
              map (\<lambda>btn. (bm_name btn, JBool (uint (data ! bm_byte btn) AND bm_mask btn \<noteq> 0)))
                (otherButtons bm))) (Map.empty, st))"
    unfolding recordButtonStates_def
  proof (rule seq_writes)
    show "recordSticks data st Map.empty = returned (applyWrites
          [(''sticks'', JSticks \<lparr> ss_left = \<lparr> sp_x = stickValue (data ! 0), sp_y = stickValue (data ! 1) \<rparr>,
                                  ss_right = \<lparr> sp_x = stickValue (data ! 2), sp_y = stickValue (data ! 3) \<rparr> \<rparr>)]
          (Map.empty, st))"
      using len assms(2) by (rule recordSticks_writes)
  next
    fix st' ch'
    show "seq (recordTrigger data ''l2_analog'' l2)
           (seq (recordTrigger data ''r2_analog'' r2)
             (seq (recordDpad data dp) (recordButtons data bm))) st' ch'
         = returned (applyWrites
             ([(''l2_analog'', JNum (of_nat (unat (data ! l2))))] @
              [(''r2_analog'', JNum (of_nat (unat (data ! r2))))] @
              map (\<lambda>dir. (dir, JBool (dpad_map (data ! dp AND 0x0f) dir))) dpadDirections @
              map (\<lambda>btn. (bm_name btn, JBool (uint (data ! bm_byte btn) AND bm_mask btn \<noteq> 0)))
                (otherButtons bm)) (ch', st'))"
      using l2 r2 dp bs by (rule tail_writes)
  qed
  then show ?thesis by (simp add: decodeWrites_def)
qed

lemma tail_failed:
  assumes "\<not> (l2 < length data \<and> r2 < length data \<and> dp < length data \<and>
              list_all (\<lambda>btn. bm_byte btn < length data) (otherButtons bm))"
  shows "fst (seq (recordTrigger data ''l2_analog'' l2)
           (seq (recordTrigger data ''r2_analog'' r2)
             (seq (recordDpad data dp) (recordButtons data bm))) st ch) = Inl RangeError"
proof (cases "l2 < length data")
  case False
  then show ?thesis by (simp add: seq_def recordTrigger_short)
next
  case l2: True
  show ?thesis
  proof (cases "r2 < length data")
    case False
    then show ?thesis
      using l2 by (simp add: seq_def recordTrigger_short recordTrigger_writes returned_def)
  next
    case r2: True
    show ?thesis
    proof (cases "dp < length data")
      case False
      then show ?thesis
        using l2 r2
        by (simp add: seq_def recordTrigger_writes recordDpad_short returned_def)
    next
      case dp: True
      with l2 r2 assms have "\<not> list_all (\<lambda>btn. bm_byte btn < length data) (otherButtons bm)" by simp
      then have "\<And>st' ch'. fst (recordButtons data bm st' ch') = Inl RangeError"
        by (rule recordButtons_short)
      then show ?thesis
        using l2 r2 dp
        by (simp add: seq_def recordTrigger_writes recordDpad_writes returned_def split: prod.splits)
    qed
  qed
qed

lemma recordButtonStates_short:
  "length data < 4 \<Longrightarrow> recordButtonStates st data bm dp l2 r2 = (Inl RangeError, st)"
  by (simp add: recordButtonStates_def seq_def recordSticks_short)

lemma recordButtonStates_not_sticksOk:
  "4 \<le> length data \<Longrightarrow> \<not> sticksOk st \<Longrightarrow>
   recordButtonStates st data bm dp l2 r2 = (Inl TypeError, st)"
  by (simp add: recordButtonStates_def seq_def recordSticks_not_ok)

lemma recordButtonStates_failed:
  assumes "sticksOk st" and "\<not> offsetsOk data bm dp l2 r2"
  shows "fst (recordButtonStates st data bm dp l2 r2) = Inl RangeError"
proof (cases "length data < 4")
  case True
  then show ?thesis by (simp add: recordButtonStates_short)
next
  case False
  then have len: "4 \<le> length data" by simp
  with assms(2) have "\<not> (l2 < length data \<and> r2 < length data \<and> dp < length data \<and>
              list_all (\<lambda>btn. bm_byte btn < length data) (otherButtons bm))"
    by (simp add: offsetsOk_def)
  then have "\<And>st' ch'. fst (seq (recordTrigger data ''l2_analog'' l2)
           (seq (recordTrigger data ''r2_analog'' r2)
             (seq (recordDpad data dp) (recordButtons data bm))) st' ch') = Inl RangeError"
    by (rule tail_failed)
  then show ?thesis
    unfolding recordButtonStates_def
    by (simp add: seq_def[of "recordSticks data"] recordSticks_writes[OF len assms(1)] returned_def
          split: prod.splits)
qed

lemma recordButtonStates_returns_iff:
  "(\<exists>c. fst (recordButtonStates st data bm dp l2 r2) = Inr c)
     = (offsetsOk data bm dp l2 r2 \<and> sticksOk st)"
proof (cases "sticksOk st")
  case True
  show ?thesis
  proof (cases "offsetsOk data bm dp l2 r2")
    case ok: True
    then show ?thesis
      using True by (simp add: recordButtonStates_writes returned_def split: prod.splits)
  next
    case False
    then show ?thesis using True by (simp add: recordButtonStates_failed)
  qed
next
  case False
  then show ?thesis
    by (cases "length data < 4")
       (simp_all add: recordButtonStates_short recordButtonStates_not_sticksOk)
qed

section \<open>Recording a report again\<close>

lemma applyWrites_in_sync:
  "(\<And>k v. (k, v) \<in> set ws \<Longrightarrow> st k = Some v) \<Longrightarrow> applyWrites ws (ch, st) = (ch, st)"
  by (induction ws) auto

lemma applyWrites_other_key:
  "k \<notin> fst ` set ws \<Longrightarrow> snd (applyWrites ws (ch, st)) k = st k"
  by (induction ws arbitrary: ch st) auto

lemma applyWrites_written:
  "distinct (map fst ws) \<Longrightarrow> (k, v) \<in> set ws \<Longrightarrow> snd (applyWrites ws (ch, st)) k = Some v"
proof (induction ws arbitrary: ch st)
  case Nil
  then show ?case by simp
next
  case (Cons w ws)
  obtain k' v' where w: "w = (k', v')" by (cases w)
  show ?case
  proof (cases "(k, v) = w")
    case True
    then have "k \<notin> fst ` set ws" using Cons.prems(1) w by auto
    then show ?thesis
      using True w by (auto simp add: applyWrites_other_key)
  next
    case False
    then have "(k, v) \<in> set ws" using Cons.prems(2) by simp
    then show ?thesis
      using Cons.IH Cons.prems(1) w by auto
  qed
qed

lemma decodeWrites_keys:
  "map fst (decodeWrites data bm dp l2 r2)
     = [''sticks'', ''l2_analog'', ''r2_analog''] @ dpadDirections @ map bm_name (otherButtons bm)"
  by (simp add: decodeWrites_def comp_def)

lemma otherButtons_not_dpad: "btn \<in> set (otherButtons bm) \<Longrightarrow> bm_name btn \<notin> set dpadDirections"
  by (simp add: otherButtons_def)

lemma decodeWrites_distinct:
  assumes "buttonNamesOk bm"
  shows "distinct (map fst (decodeWrites data bm dp l2 r2))"
proof -
  have d: "distinct (map bm_name (otherButtons bm))"
    and r: "\<And>btn. btn \<in> set (otherButtons bm) \<Longrightarrow>
              bm_name btn \<noteq> ''sticks'' \<and> bm_name btn \<noteq> ''l2_analog'' \<and> bm_name btn \<noteq> ''r2_analog''"
    using assms by (auto simp add: buttonNamesOk_def list_all_iff)
  have n: "\<And>btn. btn \<in> set (otherButtons bm) \<Longrightarrow> bm_name btn \<notin> set dpadDirections"
    by (rule otherButtons_not_dpad)
  have "distinct ([''sticks'', ''l2_analog'', ''r2_analog''] @ dpadDirections)"
    by (simp add: dpadDirections_def)
  moreover have "set ([''sticks'', ''l2_analog'', ''r2_analog''] @ dpadDirections)
                   \<inter> set (map bm_name (otherButtons bm)) = {}"
  proof -
    define A where "A = set ([''sticks'', ''l2_analog'', ''r2_analog''] @ dpadDirections)"
    have "bm_name btn \<notin> A" if "btn \<in> set (otherButtons bm)" for btn
      unfolding A_def using r[OF that] n[OF that] by simp
    then have "A \<inter> set (map bm_name (otherButtons bm)) = {}" by auto
    then show ?thesis unfolding A_def .
  qed
  ultimately show ?thesis
    unfolding decodeWrites_keys using d by (simp only: distinct_append append_assoc[symmetric])
qed

lemma sticks_in_decodeWrites:
  "(''sticks'', JSticks \<lparr> ss_left = \<lparr> sp_x = stickValue (data ! 0), sp_y = stickValue (data ! 1) \<rparr>,
                            ss_right = \<lparr> sp_x = stickValue (data ! 2), sp_y = stickValue (data ! 3) \<rparr> \<rparr>)
     \<in> set (decodeWrites data bm dp l2 r2)"
  by (simp add: decodeWrites_def)

lemma recordButtonStates_syncs:
  assumes "buttonNamesOk bm"
    and "fst (recordButtonStates st data bm dp l2 r2) = Inr c"
  shows "offsetsOk data bm dp l2 r2"
    and "sticksOk (snd (recordButtonStates st data bm dp l2 r2))"
    and "\<And>k v. (k, v) \<in> set (decodeWrites data bm dp l2 r2)
           \<Longrightarrow> snd (recordButtonStates st data bm dp l2 r2) k = Some v"
proof -
  let ?ws = "decodeWrites data bm dp l2 r2"
  let ?s1 = "snd (applyWrites ?ws (Map.empty, st))"
  from assms(2) have ok: "offsetsOk data bm dp l2 r2" and st: "sticksOk st"
    using recordButtonStates_returns_iff[of st data bm dp l2 r2] by blast+
  show "offsetsOk data bm dp l2 r2" by (rule ok)
  have first: "snd (recordButtonStates st data bm dp l2 r2) = ?s1"
    by (simp add: recordButtonStates_writes[OF ok st] returned_def split: prod.splits)
  have dist: "distinct (map fst ?ws)" using assms(1) by (rule decodeWrites_distinct)
  show sync: "\<And>k v. (k, v) \<in> set ?ws \<Longrightarrow> snd (recordButtonStates st data bm dp l2 r2) k = Some v"
    unfolding first using dist by (rule applyWrites_written)
  show "sticksOk (snd (recordButtonStates st data bm dp l2 r2))"
    unfolding sticksOk_iff using sync[OF sticks_in_decodeWrites] by blast
qed

lemma recordButtonStates_in_sync:
  assumes "offsetsOk data bm dp l2 r2" and "sticksOk st"
    and "\<And>k v. (k, v) \<in> set (decodeWrites data bm dp l2 r2) \<Longrightarrow> st k = Some v"
  shows "recordButtonStates st data bm dp l2 r2 = (Inr Map.empty, st)"
proof -
  have "recordButtonStates st data bm dp l2 r2
      = returned (applyWrites (decodeWrites data bm dp l2 r2) (Map.empty, st))"
    using assms(1,2) by (rule recordButtonStates_writes)
  also have "\<dots> = (Inr Map.empty, st)"
    using assms(3) by (simp add: applyWrites_in_sync returned_def)
  finally show ?thesis .
qed

text \<open>
  Claim C5. For a button map that names each button once and none of them \<open>sticks\<close>,
  \<open>l2_analog\<close> or \<open>r2_analog\<close>: after \<open>_recordButtonStates\<close> has processed a buffer,
  processing the same buffer again returns the empty change-set (no sticks, button, d-pad or
  analog-trigger field) and leaves the snapshot as it is.
\<close>

theorem recordButtonStates_idempotent:
  assumes "buttonNamesOk bm"
    and "fst (recordButtonStates st data bm dp l2 r2) = Inr c"
  shows "recordButtonStates (snd (recordButtonStates st data bm dp l2 r2)) data bm dp l2 r2
           = (Inr Map.empty, snd (recordButtonStates st data bm dp l2 r2))"
proof (rule recordButtonStates_in_sync)
  show "offsetsOk data bm dp l2 r2"
    using assms by (rule recordButtonStates_syncs(1))
  show "sticksOk (snd (recordButtonStates st data bm dp l2 r2))"
    using assms by (rule recordButtonStates_syncs(2))
  show "snd (recordButtonStates st data bm dp l2 r2) k = Some v"
    if "(k, v) \<in> set (decodeWrites data bm dp l2 r2)" for k v
    using assms that by (rule recordButtonStates_syncs(3))
qed

lemma offsetsOk_update:
  "offsetsOk (data[i := b]) bm dp l2 r2 = offsetsOk data bm dp l2 r2"
  by (simp add: offsetsOk_def)

lemma decodeWrites_others_agree:
  assumes "othersAgree data data' bm dp l2"
  shows "decodeWrites data' bm dp l2 r2
     = [(''sticks'', JSticks \<lparr> ss_left = \<lparr> sp_x = stickValue (data ! 0), sp_y = stickValue (data ! 1) \<rparr>,
                               ss_right = \<lparr> sp_x = stickValue (data ! 2), sp_y = stickValue (data ! 3) \<rparr> \<rparr>),
        (''l2_analog'', JNum (of_nat (unat (data ! l2)))),
        (''r2_analog'', JNum (of_nat (unat (data' ! r2))))]
       @ (map (\<lambda>dir. (dir, JBool (dpad_map (data ! dp AND 0x0f) dir))) dpadDirections
          @ map (\<lambda>btn. (bm_name btn, JBool (uint (data ! bm_byte btn) AND bm_mask btn \<noteq> 0)))
              (otherButtons bm))"
proof -
  from assms have sticks: "stickValue (data' ! 0) = stickValue (data ! 0)"
      "stickValue (data' ! 1) = stickValue (data ! 1)"
      "stickValue (data' ! 2) = stickValue (data ! 2)" "stickValue (data' ! 3) = stickValue (data ! 3)"
    and l2: "data' ! l2 = data ! l2"
    and dp: "data' ! dp AND 0x0f = data ! dp AND 0x0f"
    and bs: "\<And>btn. btn \<in> set (otherButtons bm) \<Longrightarrow>
               (uint (data' ! bm_byte btn) AND bm_mask btn \<noteq> 0)
                 = (uint (data ! bm_byte btn) AND bm_mask btn \<noteq> 0)"
    unfolding othersAgree_def list_all_iff by blast+
  have buttons: "map (\<lambda>btn. (bm_name btn, JBool (uint (data' ! bm_byte btn) AND bm_mask btn \<noteq> 0)))
              (otherButtons bm)
      = map (\<lambda>btn. (bm_name btn, JBool (uint (data ! bm_byte btn) AND bm_mask btn \<noteq> 0)))
              (otherButtons bm)"
    by (rule map_cong[OF refl]) (simp only: bs)
  show ?thesis
    unfolding decodeWrites_def sticks l2 dp buttons by simp
qed

lemma r2ByteApart_othersAgree:
  assumes "r2ByteApart bm dp l2 r2"
  shows "othersAgree data (data[r2 := b]) bm dp l2"
proof -
  from assms have far: "r2 \<noteq> 0" "r2 \<noteq> 1" "r2 \<noteq> 2" "r2 \<noteq> 3" "r2 \<noteq> l2" "r2 \<noteq> dp"
    and bs: "\<And>btn. btn \<in> set (otherButtons bm) \<Longrightarrow> r2 \<noteq> bm_byte btn"
    by (auto simp add: r2ByteApart_def list_all_iff)
  show ?thesis
    unfolding othersAgree_def list_all_iff
    using far bs by simp
qed

text \<open>
  Claim C6, as the code has it. For a button map as in C5: after a buffer has been recorded,
  recording a buffer that differs from it in the right-trigger byte alone, and that decodes
  to the same stick values, left-trigger value, d-pad nibble and button states, returns the
  change-set holding exactly \<open>r2_analog\<close> with the new byte, and the snapshot changes at
  \<open>r2_analog\<close> only.
\<close>

theorem recordButtonStates_right_trigger_only:
  assumes "buttonNamesOk bm" and "othersAgree data (data[r2 := b]) bm dp l2"
    and "fst (recordButtonStates st data bm dp l2 r2) = Inr c"
    and "b \<noteq> data ! r2"
  shows "recordButtonStates (snd (recordButtonStates st data bm dp l2 r2)) (data[r2 := b]) bm dp l2 r2
           = (Inr [''r2_analog'' \<mapsto> JNum (of_nat (unat b))],
              (snd (recordButtonStates st data bm dp l2 r2))(''r2_analog'' \<mapsto> JNum (of_nat (unat b))))"
proof -
  let ?ws = "decodeWrites data bm dp l2 r2"
  let ?s1 = "snd (applyWrites ?ws (Map.empty, st))"
  let ?sticks = "JSticks \<lparr> ss_left = \<lparr> sp_x = stickValue (data ! 0), sp_y = stickValue (data ! 1) \<rparr>,
                           ss_right = \<lparr> sp_x = stickValue (data ! 2), sp_y = stickValue (data ! 3) \<rparr> \<rparr>"
  let ?rest = "map (\<lambda>dir. (dir, JBool (dpad_map (data ! dp AND 0x0f) dir))) dpadDirections
          @ map (\<lambda>btn. (bm_name btn, JBool (uint (data ! bm_byte btn) AND bm_mask btn \<noteq> 0)))
              (otherButtons bm)"
  let ?v = "JNum (of_nat (unat b))"
  from assms(3) have ok: "offsetsOk data bm dp l2 r2" and st: "sticksOk st"
    using recordButtonStates_returns_iff[of st data bm dp l2 r2] by blast+
  then have r2: "r2 < length data" by (simp add: offsetsOk_def)
  have first: "snd (recordButtonStates st data bm dp l2 r2) = ?s1"
    by (simp add: recordButtonStates_writes[OF ok st] returned_def split: prod.splits)
  have ws: "?ws = [(''sticks'', ?sticks), (''l2_analog'', JNum (of_nat (unat (data ! l2)))),
                   (''r2_analog'', JNum (of_nat (unat (data ! r2))))] @ ?rest"
    by (simp add: decodeWrites_def)
  have dist: "distinct (map fst ?ws)" using assms(1) by (rule decodeWrites_distinct)
  have sync: "\<And>k v. (k, v) \<in> set ?ws \<Longrightarrow> ?s1 k = Some v"
    using dist by (rule applyWrites_written)
  have s_sticks: "?s1 ''sticks'' = Some ?sticks"
    and s_l2: "?s1 ''l2_analog'' = Some (JNum (of_nat (unat (data ! l2))))"
    and s_r2: "?s1 ''r2_analog'' = Some (JNum (of_nat (unat (data ! r2))))"
    by (rule sync, simp add: decodeWrites_def)+
  have apart: "''r2_analog'' \<notin> fst ` set ?rest"
    using dist unfolding ws by auto
  have rest_sync: "(?s1(''r2_analog'' \<mapsto> ?v)) k = Some v" if "(k, v) \<in> set ?rest" for k v
  proof -
    from that apart have "k \<noteq> ''r2_analog''" by force
    moreover have "?s1 k = Some v" using that by (intro sync) (simp add: ws)
    ultimately show ?thesis by simp
  qed
  have differs: "of_nat (unat (data ! r2)) \<noteq> (of_nat (unat b) :: rat)"
  proof
    assume "of_nat (unat (data ! r2)) = (of_nat (unat b) :: rat)"
    then have "(unsigned (data ! r2) :: rat) = unsigned b" by simp
    then have "data ! r2 = b" by (rule unsigned_word_eqI)
    with assms(4) show False by simp
  qed
  have "sticksOk ?s1" unfolding sticksOk_iff using s_sticks by blast
  then have "recordButtonStates ?s1 (data[r2 := b]) bm dp l2 r2
      = returned (applyWrites (decodeWrites (data[r2 := b]) bm dp l2 r2) (Map.empty, ?s1))"
    using ok by (simp add: recordButtonStates_writes offsetsOk_update)
  also have "\<dots> = returned (applyWrites ?rest
        (applyWrites [(''sticks'', ?sticks), (''l2_analog'', JNum (of_nat (unat (data ! l2)))),
                      (''r2_analog'', ?v)] (Map.empty, ?s1)))"
    unfolding decodeWrites_others_agree[OF assms(2)] nth_list_update_eq[OF r2] applyWrites_append ..
  also have "applyWrites [(''sticks'', ?sticks), (''l2_analog'', JNum (of_nat (unat (data ! l2)))),
                      (''r2_analog'', ?v)] (Map.empty, ?s1)
       = ([''r2_analog'' \<mapsto> ?v], ?s1(''r2_analog'' \<mapsto> ?v))"
    using s_sticks s_l2 s_r2 differs by simp
  also have "applyWrites ?rest ([''r2_analog'' \<mapsto> ?v], ?s1(''r2_analog'' \<mapsto> ?v))
       = ([''r2_analog'' \<mapsto> ?v], ?s1(''r2_analog'' \<mapsto> ?v))"
    using rest_sync by (rule applyWrites_in_sync)
  finally show ?thesis unfolding first by (simp add: returned_def)
qed

lemma sample_names_ok: "buttonNamesOk (buttonMap sampleInputConfig)"
  by (simp add: buttonNamesOk_def otherButtons_def sampleInputConfig_def dpadDirections_def)

lemma sample_offsets_ok:
  "offsetsOk sampleReport (buttonMap sampleInputConfig) (dpadByte sampleInputConfig)
     (l2AnalogByte sampleInputConfig) (r2AnalogByte sampleInputConfig)"
  by (simp add: offsetsOk_def otherButtons_def sampleInputConfig_def dpadDirections_def sampleReport_def)

lemma sample_r2_apart:
  "r2ByteApart (buttonMap sampleInputConfig) (dpadByte sampleInputConfig)
     (l2AnalogByte sampleInputConfig) (r2AnalogByte sampleInputConfig)"
  by (simp add: r2ByteApart_def otherButtons_def sampleInputConfig_def dpadDirections_def)

lemma new_sticksOk: "sticksOk (button_states newControllerManager)"
  by (simp add: sticksOk_def newControllerManager_def)

lemma sample_returns:
  "\<exists>c. fst (recordButtonStates (button_states newControllerManager) sampleReport
        (buttonMap sampleInputConfig) (dpadByte sampleInputConfig)
        (l2AnalogByte sampleInputConfig) (r2AnalogByte sampleInputConfig)) = Inr c"
  unfolding recordButtonStates_returns_iff using sample_offsets_ok new_sticksOk by simp

theorem recordButtonStates_idempotent_witness:
  "recordButtonStates
     (snd (recordButtonStates (button_states newControllerManager) sampleReport
        (buttonMap sampleInputConfig) (dpadByte sampleInputConfig)
        (l2AnalogByte sampleInputConfig) (r2AnalogByte sampleInputConfig)))
     sampleReport (buttonMap sampleInputConfig) (dpadByte sampleInputConfig)
     (l2AnalogByte sampleInputConfig) (r2AnalogByte sampleInputConfig)
   = (Inr Map.empty,
      snd (recordButtonStates (button_states newControllerManager) sampleReport
        (buttonMap sampleInputConfig) (dpadByte sampleInputConfig)
        (l2AnalogByte sampleInputConfig) (r2AnalogByte sampleInputConfig)))"
proof -
  from sample_returns obtain c where
    "fst (recordButtonStates (button_states newControllerManager) sampleReport
        (buttonMap sampleInputConfig) (dpadByte sampleInputConfig)
        (l2AnalogByte sampleInputConfig) (r2AnalogByte sampleInputConfig)) = Inr c" ..
  with sample_names_ok show ?thesis by (rule recordButtonStates_idempotent)
qed

theorem recordButtonStates_right_trigger_only_witness:
  "recordButtonStates
     (snd (recordButtonStates (button_states newControllerManager) sampleReport
        (buttonMap sampleInputConfig) (dpadByte sampleInputConfig)
        (l2AnalogByte sampleInputConfig) (r2AnalogByte sampleInputConfig)))
     (sampleReport[r2AnalogByte sampleInputConfig := 10])
     (buttonMap sampleInputConfig) (dpadByte sampleInputConfig)
     (l2AnalogByte sampleInputConfig) (r2AnalogByte sampleInputConfig)
   = (Inr [''r2_analog'' \<mapsto> JNum 10],
      (snd (recordButtonStates (button_states newControllerManager) sampleReport
        (buttonMap sampleInputConfig) (dpadByte sampleInputConfig)
        (l2AnalogByte sampleInputConfig) (r2AnalogByte sampleInputConfig)))
      (''r2_analog'' \<mapsto> JNum 10)) \<and>
   recordButtonStates
     (snd (recordButtonStates (button_states newControllerManager) sampleReport
        [\<lparr> bm_name = ''r2'', bm_byte = 8, bm_mask = 0xff \<rparr>] 4 7 8))
     (sampleReport[8 := 10]) [\<lparr> bm_name = ''r2'', bm_byte = 8, bm_mask = 0xff \<rparr>] 4 7 8
   = (Inr [''r2_analog'' \<mapsto> JNum 10],
      (snd (recordButtonStates (button_states newControllerManager) sampleReport
        [\<lparr> bm_name = ''r2'', bm_byte = 8, bm_mask = 0xff \<rparr>] 4 7 8))
      (''r2_analog'' \<mapsto> JNum 10))"
proof -
  let ?bm = "[\<lparr> bm_name = ''r2'', bm_byte = 8, bm_mask = 0xff \<rparr>]"
  from sample_returns obtain c where
    c: "fst (recordButtonStates (button_states newControllerManager) sampleReport
        (buttonMap sampleInputConfig) (dpadByte sampleInputConfig)
        (l2AnalogByte sampleInputConfig) (r2AnalogByte sampleInputConfig)) = Inr c" ..
  have d: "(10 :: u8) \<noteq> sampleReport ! r2AnalogByte sampleInputConfig"
    by (simp add: sampleReport_def sampleInputConfig_def)
  have apart: "recordButtonStates
     (snd (recordButtonStates (button_states newControllerManager) sampleReport
        (buttonMap sampleInputConfig) (dpadByte sampleInputConfig)
        (l2AnalogByte sampleInputConfig) (r2AnalogByte sampleInputConfig)))
     (sampleReport[r2AnalogByte sampleInputConfig := 10])
     (buttonMap sampleInputConfig) (dpadByte sampleInputConfig)
     (l2AnalogByte sampleInputConfig) (r2AnalogByte sampleInputConfig)
   = (Inr [''r2_analog'' \<mapsto> JNum 10],
      (snd (recordButtonStates (button_states newControllerManager) sampleReport
        (buttonMap sampleInputConfig) (dpadByte sampleInputConfig)
        (l2AnalogByte sampleInputConfig) (r2AnalogByte sampleInputConfig)))
      (''r2_analog'' \<mapsto> JNum 10))"
    using recordButtonStates_right_trigger_only
            [OF sample_names_ok r2ByteApart_othersAgree[OF sample_r2_apart] c d]
    by simp
  have names: "buttonNamesOk ?bm"
    by (simp add: buttonNamesOk_def otherButtons_def dpadDirections_def)
  have agree: "othersAgree sampleReport (sampleReport[8 := 10]) ?bm 4 7"
    by (simp add: othersAgree_def otherButtons_def dpadDirections_def sampleReport_def)
  have "offsetsOk sampleReport ?bm 4 7 8"
    by (simp add: offsetsOk_def otherButtons_def dpadDirections_def sampleReport_def)
  then obtain c' where
    c': "fst (recordButtonStates (button_states newControllerManager) sampleReport ?bm 4 7 8) = Inr c'"
    using recordButtonStates_returns_iff[of "button_states newControllerManager" sampleReport ?bm 4 7 8]
          new_sticksOk
    by blast
  have d': "(10 :: u8) \<noteq> sampleReport ! 8"
    by (simp add: sampleReport_def)
  have shared: "recordButtonStates
     (snd (recordButtonStates (button_states newControllerManager) sampleReport ?bm 4 7 8))
     (sampleReport[8 := 10]) ?bm 4 7 8
   = (Inr [''r2_analog'' \<mapsto> JNum 10],
      (snd (recordButtonStates (button_states newControllerManager) sampleReport ?bm 4 7 8))
      (''r2_analog'' \<mapsto> JNum 10))"
    using recordButtonStates_right_trigger_only[OF names agree c' d'] by simp
  show ?thesis using apart shared by (rule conjI)
qed

text \<open>
  A layout whose button map has a digital \<open>r2\<close> entry on the byte of the right analog
  trigger: releasing the trigger (200 to 0) changes that byte alone, and the second
  change-set holds \<open>r2\<close> next to \<open>r2_analog\<close>.
\<close>

theorem recordButtonStates_right_trigger_only_counterexample:
  "changeAt ''r2''
     (fst (recordButtonStates
        (snd (recordButtonStates (button_states newControllerManager) sampleReport
                [\<lparr> bm_name = ''r2'', bm_byte = 8, bm_mask = 0xff \<rparr>] 4 7 8))
        (sampleReport[8 := 0]) [\<lparr> bm_name = ''r2'', bm_byte = 8, bm_mask = 0xff \<rparr>] 4 7 8))
     = Inr (Some (JBool False)) \<and>
   changeAt ''r2_analog''
     (fst (recordButtonStates
        (snd (recordButtonStates (button_states newControllerManager) sampleReport
                [\<lparr> bm_name = ''r2'', bm_byte = 8, bm_mask = 0xff \<rparr>] 4 7 8))
        (sampleReport[8 := 0]) [\<lparr> bm_name = ''r2'', bm_byte = 8, bm_mask = 0xff \<rparr>] 4 7 8))
     = Inr (Some (JNum 0)) \<and>
   sampleReport ! 8 = 200"
proof -
  let ?bm = "[\<lparr> bm_name = ''r2'', bm_byte = 8, bm_mask = 0xff \<rparr>]"
  let ?s0 = "button_states newControllerManager"
  let ?sticks = "JSticks \<lparr> ss_left = \<lparr> sp_x = - 1, sp_y = 1 \<rparr>, ss_right = \<lparr> sp_x = 0, sp_y = 57 / 100 \<rparr> \<rparr>"
  have ok: "offsetsOk sampleReport ?bm 4 7 8"
    by (simp add: offsetsOk_def otherButtons_def dpadDirections_def sampleReport_def)
  have ok': "offsetsOk (sampleReport[8 := 0]) ?bm 4 7 8"
    using ok by (simp only: offsetsOk_update)
  have ws: "decodeWrites sampleReport ?bm 4 7 8
      = [(''sticks'', ?sticks), (''l2_analog'', JNum 0), (''r2_analog'', JNum 200),
         (''up'', JBool False), (''right'', JBool False), (''down'', JBool False), (''left'', JBool False),
         (''r2'', JBool True)]"
    by (simp add: decodeWrites_def otherButtons_def dpadDirections_def dpad_map_def stick_int
          sampleReport_def)
  have ws': "decodeWrites (sampleReport[8 := 0]) ?bm 4 7 8
      = [(''sticks'', ?sticks), (''l2_analog'', JNum 0), (''r2_analog'', JNum 0),
         (''up'', JBool False), (''right'', JBool False), (''down'', JBool False), (''left'', JBool False),
         (''r2'', JBool False)]"
    by (simp add: decodeWrites_def otherButtons_def dpadDirections_def dpad_map_def stick_int
          sampleReport_def)
  have first: "snd (recordButtonStates ?s0 sampleReport ?bm 4 7 8)
      = ?s0(''sticks'' \<mapsto> ?sticks, ''l2_analog'' \<mapsto> JNum 0, ''r2_analog'' \<mapsto> JNum 200,
            ''up'' \<mapsto> JBool False, ''right'' \<mapsto> JBool False, ''down'' \<mapsto> JBool False,
            ''left'' \<mapsto> JBool False, ''r2'' \<mapsto> JBool True)"
    unfolding recordButtonStates_writes[OF ok new_sticksOk] ws
    by (simp add: returned_def newControllerManager_def)
  have sticks: "sticksOk (?s0(''sticks'' \<mapsto> ?sticks, ''l2_analog'' \<mapsto> JNum 0, ''r2_analog'' \<mapsto> JNum 200,
            ''up'' \<mapsto> JBool False, ''right'' \<mapsto> JBool False, ''down'' \<mapsto> JBool False,
            ''left'' \<mapsto> JBool False, ''r2'' \<mapsto> JBool True))"
    by (simp add: sticksOk_def)
  have second: "fst (recordButtonStates (snd (recordButtonStates ?s0 sampleReport ?bm 4 7 8))
                  (sampleReport[8 := 0]) ?bm 4 7 8)
      = Inr [''r2_analog'' \<mapsto> JNum 0, ''r2'' \<mapsto> JBool False]"
    unfolding first recordButtonStates_writes[OF ok' sticks] ws'
    by (simp add: returned_def)
  show ?thesis
    unfolding second by (simp add: changeAt_def sampleReport_def)
qed

section \<open>Short buffers\<close>

lemma applyWrites_changes_other_key:
  "k \<notin> fst ` set ws \<Longrightarrow> fst (applyWrites ws (ch, st)) k = ch k"
  by (induction ws arbitrary: ch st) auto

lemma applyWrites_change_recorded:
  "distinct (map fst ws) \<Longrightarrow> (k, v) \<in> set ws \<Longrightarrow> st k \<noteq> Some v
   \<Longrightarrow> fst (applyWrites ws (ch, st)) k = Some v"
proof (induction ws arbitrary: ch st)
  case Nil
  then show ?case by simp
next
  case (Cons w ws)
  obtain k' v' where w: "w = (k', v')" by (cases w)
  show ?case
  proof (cases "(k, v) = w")
    case True
    then have "k \<notin> fst ` set ws" using Cons.prems(1) w by auto
    then show ?thesis
      using True w Cons.prems(3) by (auto simp add: applyWrites_changes_other_key)
  next
    case False
    then have in_ws: "(k, v) \<in> set ws" using Cons.prems(2) by simp
    then have "k \<noteq> k'" using Cons.prems(1) w by force
    then show ?thesis
      using Cons.IH[OF _ in_ws] Cons.prems(1,3) w by auto
  qed
qed

lemma parseTouchPoint_short:
  "\<not> base + 4 \<le> length data \<Longrightarrow> parseTouchPoint data base = Inl RangeError"
  by (auto simp add: parseTouchPoint_def getUint8_def split: sum.splits)

lemma parseTouchPoints_short:
  assumes "\<not> offset + 8 \<le> length data"
  shows "parseTouchPoints data offset = Inl RangeError"
proof (cases "offset + 4 \<le> length data")
  case False
  then have "parseTouchPoint data offset = Inl RangeError" by (rule parseTouchPoint_short)
  then show ?thesis
    unfolding parseTouchPoints_def
    by (subst parseTouchPointsLoop.simps[of data offset 0]) (simp add: TOUCHPAD_MAX_POINTS_def)
next
  case True
  then have p0: "parseTouchPoint data offset
      = Inr (touchPointOf (data ! offset) (data ! (offset + 1)) (data ! (offset + 2)) (data ! (offset + 3)))"
    by (rule parseTouchPoint_in_range)
  from assms have "\<not> offset + 4 + 4 \<le> length data" by simp
  then have p1: "parseTouchPoint data (offset + 4) = Inl RangeError" by (rule parseTouchPoint_short)
  have step1: "parseTouchPointsLoop data offset 1 ps = Inl RangeError" for ps
    by (subst parseTouchPointsLoop.simps[of data offset 1])
       (simp add: TOUCHPAD_MAX_POINTS_def TOUCHPAD_BYTES_PER_POINT_def p1)
  show ?thesis
    unfolding parseTouchPoints_def
    by (subst parseTouchPointsLoop.simps[of data offset 0])
       (simp add: TOUCHPAD_MAX_POINTS_def TOUCHPAD_BYTES_PER_POINT_def p0 p1)
qed

lemma processControllerInput_record_failed:
  assumes "recordButtonStates (button_states m) data (buttonMap (drv_getInputConfig drv))
             (dpadByte (drv_getInputConfig drv)) (l2AnalogByte (drv_getInputConfig drv))
             (r2AnalogByte (drv_getInputConfig drv)) = (Inl e, bs)"
  shows "processControllerInput l drv m data = (Inl e, m\<lparr>button_states := bs\<rparr>)"
  using assms by (simp add: processControllerInput_def Let_def)

lemma processControllerInput_touch_failed:
  assumes "recordButtonStates (button_states m) data (buttonMap (drv_getInputConfig drv))
             (dpadByte (drv_getInputConfig drv)) (l2AnalogByte (drv_getInputConfig drv))
             (r2AnalogByte (drv_getInputConfig drv)) = (Inr ch, bs)"
    and "\<not> touchOk (drv_getInputConfig drv) data"
  shows "processControllerInput l drv m data = (Inl RangeError, m\<lparr>button_states := bs\<rparr>)"
proof -
  from assms(2) obtain off where off: "touchpadOffset (drv_getInputConfig drv) = Some off" "off \<noteq> 0"
    and short: "\<not> off + 8 \<le> length data"
    by (auto simp add: touchOk_def TOUCHPAD_BYTES_PER_POINT_def split: option.splits)
  show ?thesis
    using assms(1) off parseTouchPoints_short[OF short]
    by (simp add: processControllerInput_def Let_def)
qed

text \<open>
  Claim C8, as the code has it. When the snapshot holds a stick record and the buffer is too
  short for a byte that \<open>_recordButtonStates\<close> or \<open>_parseTouchPoints\<close> reads,
  \<open>processControllerInput\<close> fails with the \<open>RangeError\<close> of \<open>DataView.getUint8\<close>; the
  stored touch points, battery status and battery label are untouched, and a buffer shorter
  than the four stick bytes leaves the whole manager state untouched.
\<close>

theorem processControllerInput_short_buffer:
  assumes "sticksOk (button_states m)"
    and "\<not> (offsetsOk data (buttonMap (drv_getInputConfig drv)) (dpadByte (drv_getInputConfig drv))
               (l2AnalogByte (drv_getInputConfig drv)) (r2AnalogByte (drv_getInputConfig drv))
             \<and> touchOk (drv_getInputConfig drv) data)"
  shows "fst (processControllerInput l drv m data) = Inl RangeError \<and>
         touchPoints (snd (processControllerInput l drv m data)) = touchPoints m \<and>
         batteryStatus (snd (processControllerInput l drv m data)) = batteryStatus m \<and>
         lastBatteryText (snd (processControllerInput l drv m data)) = lastBatteryText m \<and>
         (length data < 4 \<longrightarrow> snd (processControllerInput l drv m data) = m)"
proof -
  let ?cfg = "drv_getInputConfig drv"
  obtain r bs where rec: "recordButtonStates (button_states m) data (buttonMap ?cfg)
             (dpadByte ?cfg) (l2AnalogByte ?cfg) (r2AnalogByte ?cfg) = (r, bs)"
    by (cases "recordButtonStates (button_states m) data (buttonMap ?cfg)
             (dpadByte ?cfg) (l2AnalogByte ?cfg) (r2AnalogByte ?cfg)")
  have unchanged: "bs = button_states m" if "length data < 4"
    using rec recordButtonStates_short[OF that, of "button_states m"] by simp
  show ?thesis
  proof (cases "offsetsOk data (buttonMap ?cfg) (dpadByte ?cfg) (l2AnalogByte ?cfg) (r2AnalogByte ?cfg)")
    case False
    then have "r = Inl RangeError"
      using recordButtonStates_failed[OF assms(1) False] rec by simp
    then have "processControllerInput l drv m data = (Inl RangeError, m\<lparr>button_states := bs\<rparr>)"
      using rec by (simp add: processControllerInput_record_failed)
    then show ?thesis using unchanged by simp
  next
    case True
    then obtain ch where "r = Inr ch"
      using recordButtonStates_returns_iff[of "button_states m" data "buttonMap ?cfg" "dpadByte ?cfg"
              "l2AnalogByte ?cfg" "r2AnalogByte ?cfg"] assms(1) rec by auto
    moreover have "\<not> touchOk ?cfg data" using True assms(2) by simp
    ultimately have "processControllerInput l drv m data = (Inl RangeError, m\<lparr>button_states := bs\<rparr>)"
      using rec by (simp add: processControllerInput_touch_failed)
    then show ?thesis using unchanged by simp
  qed
qed

lemma stub_config: "drv_getInputConfig (stubController cfg res) = cfg"
  by (simp add: stubController_def)

lemma stub_battery: "drv_parseBatteryStatus (stubController cfg res) = stubParseBatteryStatus"
  by (simp add: stubController_def)

theorem processControllerInput_short_buffer_witness:
  "fst (processControllerInput id (stubController sampleInputConfig okResult) newControllerManager [1, 2, 3])
     = Inl RangeError \<and>
   snd (processControllerInput id (stubController sampleInputConfig okResult) newControllerManager [1, 2, 3])
     = newControllerManager"
proof -
  have "\<not> (offsetsOk [1, 2, 3] (buttonMap (drv_getInputConfig (stubController sampleInputConfig okResult)))
              (dpadByte (drv_getInputConfig (stubController sampleInputConfig okResult)))
              (l2AnalogByte (drv_getInputConfig (stubController sampleInputConfig okResult)))
              (r2AnalogByte (drv_getInputConfig (stubController sampleInputConfig okResult)))
            \<and> touchOk (drv_getInputConfig (stubController sampleInputConfig okResult)) [1, 2, 3])"
    by (simp add: offsetsOk_def)
  from processControllerInput_short_buffer[OF new_sticksOk this, of id]
  show ?thesis by simp
qed

text \<open>
  A four-byte report for the sample layout: the read of the left-trigger byte throws a
  \<open>RangeError\<close> after the stick values have been written to the snapshot.
\<close>

theorem processControllerInput_short_buffer_counterexample:
  "fst (processControllerInput id (stubController sampleInputConfig okResult) newControllerManager [0, 0, 0, 0])
     = Inl RangeError \<and>
   button_states (snd (processControllerInput id (stubController sampleInputConfig okResult)
                         newControllerManager [0, 0, 0, 0])) ''sticks''
     = Some (JSticks \<lparr> ss_left = \<lparr> sp_x = - 1, sp_y = - 1 \<rparr>, ss_right = \<lparr> sp_x = - 1, sp_y = - 1 \<rparr> \<rparr>) \<and>
   button_states newControllerManager ''sticks''
     = Some (JSticks \<lparr> ss_left = \<lparr> sp_x = 0, sp_y = 0 \<rparr>, ss_right = \<lparr> sp_x = 0, sp_y = 0 \<rparr> \<rparr>)"
proof -
  have sticks: "recordSticks [0, 0, 0, 0] (button_states newControllerManager) Map.empty
      = returned (applyWrites
          [(''sticks'', JSticks \<lparr> ss_left = \<lparr> sp_x = - 1, sp_y = - 1 \<rparr>, ss_right = \<lparr> sp_x = - 1, sp_y = - 1 \<rparr> \<rparr>)]
          (Map.empty, button_states newControllerManager))"
    using recordSticks_writes[of "[0, 0, 0, 0]" "button_states newControllerManager" Map.empty]
          new_sticksOk
    by (simp add: stick_int)
  have "recordButtonStates (button_states newControllerManager) [0, 0, 0, 0]
          (buttonMap sampleInputConfig) (dpadByte sampleInputConfig)
          (l2AnalogByte sampleInputConfig) (r2AnalogByte sampleInputConfig)
      = (Inl RangeError,
         (button_states newControllerManager)
           (''sticks'' \<mapsto> JSticks \<lparr> ss_left = \<lparr> sp_x = - 1, sp_y = - 1 \<rparr>,
                                    ss_right = \<lparr> sp_x = - 1, sp_y = - 1 \<rparr> \<rparr>))"
  proof -
    have step: "recordSticks [0, 0, 0, 0] (button_states newControllerManager) Map.empty
      = (Inr [''sticks'' \<mapsto> JSticks \<lparr> ss_left = \<lparr> sp_x = - 1, sp_y = - 1 \<rparr>,
                                         ss_right = \<lparr> sp_x = - 1, sp_y = - 1 \<rparr> \<rparr>],
         (button_states newControllerManager)
           (''sticks'' \<mapsto> JSticks \<lparr> ss_left = \<lparr> sp_x = - 1, sp_y = - 1 \<rparr>,
                                    ss_right = \<lparr> sp_x = - 1, sp_y = - 1 \<rparr> \<rparr>))"
      unfolding sticks by (simp add: returned_def newControllerManager_def)
    show ?thesis
      unfolding recordButtonStates_def seq_def[of "recordSticks [0, 0, 0, 0]"] step
      by (simp add: seq_def recordTrigger_short sampleInputConfig_def)
  qed
  then have "processControllerInput id (stubController sampleInputConfig okResult) newControllerManager [0, 0, 0, 0]
      = (Inl RangeError, newControllerManager\<lparr>button_states :=
           (button_states newControllerManager)
             (''sticks'' \<mapsto> JSticks \<lparr> ss_left = \<lparr> sp_x = - 1, sp_y = - 1 \<rparr>,
                                      ss_right = \<lparr> sp_x = - 1, sp_y = - 1 \<rparr> \<rparr>)\<rparr>)"
    by (simp add: processControllerInput_record_failed stub_config)
  then show ?thesis by (simp add: newControllerManager_def)
qed

lemma processControllerInput_returned:
  assumes "fst (processControllerInput l drv m data) = Inr r"
  shows "\<exists>ch bs info.
           recordButtonStates (button_states m) data (buttonMap (drv_getInputConfig drv))
             (dpadByte (drv_getInputConfig drv)) (l2AnalogByte (drv_getInputConfig drv))
             (r2AnalogByte (drv_getInputConfig drv)) = (Inr ch, bs) \<and>
           drv_parseBatteryStatus drv data = Inr info \<and>
           (case touchpadOffset (drv_getInputConfig drv) of
              None \<Rightarrow> Inr (touchPoints m)
            | Some off \<Rightarrow> if off \<noteq> 0 then parseTouchPoints data off else Inr (touchPoints m))
             = Inr (pr_touchPoints r) \<and>
           pr_changes r = ch \<and>
           pr_buttonMap r = buttonMap (drv_getInputConfig drv) \<and>
           pr_batteryStatus r
             = BatteryInfo.extend info \<lparr> bat_txt = batteryPercentToText l info,
                 changed = (batteryPercentToText l info \<noteq> lastBatteryText m) \<rparr>"
proof -
  let ?cfg = "drv_getInputConfig drv"
  let ?tp = "\<lambda>m'. (case touchpadOffset ?cfg of
              None \<Rightarrow> Inr (touchPoints m')
            | Some off \<Rightarrow> if off \<noteq> 0 then parseTouchPoints data off else Inr (touchPoints m'))"
  obtain r0 bs where rec: "recordButtonStates (button_states m) data (buttonMap ?cfg)
             (dpadByte ?cfg) (l2AnalogByte ?cfg) (r2AnalogByte ?cfg) = (r0, bs)"
    by (cases "recordButtonStates (button_states m) data (buttonMap ?cfg)
             (dpadByte ?cfg) (l2AnalogByte ?cfg) (r2AnalogByte ?cfg)")
  from assms rec obtain ch where r0: "r0 = Inr ch"
    by (cases r0) (simp_all add: processControllerInput_def Let_def)
  have tp_m: "?tp (m\<lparr>button_states := bs\<rparr>) = ?tp m"
    by (simp split: option.splits)
  from assms rec r0 obtain tps where tps: "?tp m = Inr tps"
    by (cases "?tp m") (simp_all add: processControllerInput_def Let_def tp_m)
  from assms rec r0 tps obtain info where info: "drv_parseBatteryStatus drv data = Inr info"
    by (cases "drv_parseBatteryStatus drv data")
       (simp_all add: processControllerInput_def Let_def tp_m parseBatteryStatus_def)
  have "r = \<lparr> pr_changes = ch, pr_buttonMap = buttonMap ?cfg, pr_touchPoints = tps,
              pr_batteryStatus = BatteryInfo.extend info \<lparr> bat_txt = batteryPercentToText l info,
                 changed = (batteryPercentToText l info \<noteq> lastBatteryText m) \<rparr> \<rparr>"
    using assms rec r0 tps info
    by (simp add: processControllerInput_def Let_def tp_m parseBatteryStatus_def)
  then show ?thesis using rec r0 tps info by simp
qed

text \<open>
  Claim C9, as the code has it. For two calls of \<open>processControllerInput\<close> on the same bytes
  with the same controller that both return, from any two manager states: the button map,
  the battery reading and the battery label of the two results are equal, and so are the
  touch points when the layout declares a non-zero touchpad offset. The change-set and the
  battery \<open>changed\<close> flag are computed against the stored state.
\<close>

theorem processControllerInput_history_independent_part:
  assumes "fst (processControllerInput l drv m1 data) = Inr r1"
    and "fst (processControllerInput l drv m2 data) = Inr r2"
  shows "pr_buttonMap r1 = pr_buttonMap r2 \<and>
         BatteryInfo.truncate (pr_batteryStatus r1) = BatteryInfo.truncate (pr_batteryStatus r2) \<and>
         bat_txt (pr_batteryStatus r1) = bat_txt (pr_batteryStatus r2) \<and>
         ((\<exists>off. touchpadOffset (drv_getInputConfig drv) = Some off \<and> off \<noteq> 0)
            \<longrightarrow> pr_touchPoints r1 = pr_touchPoints r2)"
proof -
  from processControllerInput_returned[OF assms(1)] obtain info1 where
    i1: "drv_parseBatteryStatus drv data = Inr info1"
    and t1: "(case touchpadOffset (drv_getInputConfig drv) of
              None \<Rightarrow> Inr (touchPoints m1)
            | Some off \<Rightarrow> if off \<noteq> 0 then parseTouchPoints data off else Inr (touchPoints m1))
             = Inr (pr_touchPoints r1)"
    and b1: "pr_buttonMap r1 = buttonMap (drv_getInputConfig drv)"
    and s1: "pr_batteryStatus r1
             = BatteryInfo.extend info1 \<lparr> bat_txt = batteryPercentToText l info1,
                 changed = (batteryPercentToText l info1 \<noteq> lastBatteryText m1) \<rparr>"
    by blast
  from processControllerInput_returned[OF assms(2)] obtain info2 where
    i2: "drv_parseBatteryStatus drv data = Inr info2"
    and t2: "(case touchpadOffset (drv_getInputConfig drv) of
              None \<Rightarrow> Inr (touchPoints m2)
            | Some off \<Rightarrow> if off \<noteq> 0 then parseTouchPoints data off else Inr (touchPoints m2))
             = Inr (pr_touchPoints r2)"
    and b2: "pr_buttonMap r2 = buttonMap (drv_getInputConfig drv)"
    and s2: "pr_batteryStatus r2
             = BatteryInfo.extend info2 \<lparr> bat_txt = batteryPercentToText l info2,
                 changed = (batteryPercentToText l info2 \<noteq> lastBatteryText m2) \<rparr>"
    by blast
  from i1 i2 have same: "info1 = info2" by simp
  have "pr_touchPoints r1 = pr_touchPoints r2"
    if "touchpadOffset (drv_getInputConfig drv) = Some off" "off \<noteq> 0" for off
    using t1 t2 that by simp
  then show ?thesis
    using b1 b2 s1 s2 same
    by (auto simp add: BatteryInfo.extend_def BatteryInfo.truncate_def)
qed

section \<open>What depends on the stored state\<close>

lemma processControllerInput_returns:
  assumes "recordButtonStates (button_states m) data (buttonMap (drv_getInputConfig drv))
             (dpadByte (drv_getInputConfig drv)) (l2AnalogByte (drv_getInputConfig drv))
             (r2AnalogByte (drv_getInputConfig drv)) = (Inr ch, bs)"
    and "touchpadOffset (drv_getInputConfig drv) = Some off" and "off \<noteq> 0"
    and "parseTouchPoints data off = Inr tps"
    and "drv_parseBatteryStatus drv data = Inr info"
  shows "processControllerInput l drv m data
     = (Inr \<lparr> pr_changes = ch, pr_buttonMap = buttonMap (drv_getInputConfig drv), pr_touchPoints = tps,
              pr_batteryStatus = BatteryInfo.extend info \<lparr> bat_txt = batteryPercentToText l info,
                 changed = (batteryPercentToText l info \<noteq> lastBatteryText m) \<rparr> \<rparr>,
        m\<lparr> button_states := bs, touchPoints := tps,
           batteryStatus := BatteryInfo.extend info \<lparr> bat_txt = batteryPercentToText l info,
                 changed = (batteryPercentToText l info \<noteq> lastBatteryText m) \<rparr>,
           lastBatteryText := batteryPercentToText l info \<rparr>)"
  using assms by (simp add: processControllerInput_def Let_def parseBatteryStatus_def)

lemma sample_touch:
  "\<exists>tps. parseTouchPoints sampleReport 9 = Inr tps"
  using parseTouchPoints_in_range[of 9 sampleReport] by (simp add: sampleReport_def)

lemma sample_battery:
  "\<exists>info. stubParseBatteryStatus sampleReport = Inr info"
  by (simp add: stubParseBatteryStatus_def getUint8_def sampleReport_def)

lemma sample_first:
  "\<exists>r. processControllerInput id (stubController sampleInputConfig okResult) newControllerManager sampleReport
     = (Inr r, snd (processControllerInput id (stubController sampleInputConfig okResult) newControllerManager sampleReport))
     \<and> pr_changes r ''r2_analog'' = Some (JNum 200)
     \<and> button_states (snd (processControllerInput id (stubController sampleInputConfig okResult)
                              newControllerManager sampleReport))
         = snd (recordButtonStates (button_states newControllerManager) sampleReport
                  (buttonMap sampleInputConfig) (dpadByte sampleInputConfig)
                  (l2AnalogByte sampleInputConfig) (r2AnalogByte sampleInputConfig))"
proof -
  let ?ws = "decodeWrites sampleReport (buttonMap sampleInputConfig) (dpadByte sampleInputConfig)
               (l2AnalogByte sampleInputConfig) (r2AnalogByte sampleInputConfig)"
  let ?s0 = "button_states newControllerManager"
  have rec: "recordButtonStates ?s0 sampleReport
                  (buttonMap sampleInputConfig) (dpadByte sampleInputConfig)
                  (l2AnalogByte sampleInputConfig) (r2AnalogByte sampleInputConfig)
      = (Inr (fst (applyWrites ?ws (Map.empty, ?s0))), snd (applyWrites ?ws (Map.empty, ?s0)))"
    by (simp add: recordButtonStates_writes[OF sample_offsets_ok new_sticksOk] returned_def
          split: prod.splits)
  have "(''r2_analog'', JNum 200) \<in> set ?ws"
    by (simp add: decodeWrites_def sampleReport_def sampleInputConfig_def)
  moreover have "?s0 ''r2_analog'' \<noteq> Some (JNum 200)"
    by (simp add: newControllerManager_def)
  ultimately have ch: "fst (applyWrites ?ws (Map.empty, ?s0)) ''r2_analog'' = Some (JNum 200)"
    using decodeWrites_distinct[OF sample_names_ok] by (intro applyWrites_change_recorded)
  from sample_touch obtain tps where tps: "parseTouchPoints sampleReport 9 = Inr tps" ..
  from sample_battery obtain info where info: "stubParseBatteryStatus sampleReport = Inr info" ..
  have off: "touchpadOffset sampleInputConfig = Some 9" by (simp add: sampleInputConfig_def)
  show ?thesis
    using processControllerInput_returns[of newControllerManager sampleReport
            "stubController sampleInputConfig okResult" _ _ 9 tps info id]
          rec tps info off ch
    by (simp add: stub_config stub_battery)
qed

lemma sample_second:
  assumes "button_states m
         = snd (recordButtonStates (button_states newControllerManager) sampleReport
                  (buttonMap sampleInputConfig) (dpadByte sampleInputConfig)
                  (l2AnalogByte sampleInputConfig) (r2AnalogByte sampleInputConfig))"
  shows "\<exists>r. processControllerInput id (stubController sampleInputConfig okResult) m sampleReport
     = (Inr r, snd (processControllerInput id (stubController sampleInputConfig okResult) m sampleReport))
     \<and> pr_changes r ''r2_analog'' = None"
proof -
  from sample_returns obtain c where
    c: "fst (recordButtonStates (button_states newControllerManager) sampleReport
        (buttonMap sampleInputConfig) (dpadByte sampleInputConfig)
        (l2AnalogByte sampleInputConfig) (r2AnalogByte sampleInputConfig)) = Inr c" ..
  have rec: "recordButtonStates (button_states m) sampleReport
                  (buttonMap sampleInputConfig) (dpadByte sampleInputConfig)
                  (l2AnalogByte sampleInputConfig) (r2AnalogByte sampleInputConfig)
      = (Inr Map.empty, button_states m)"
    unfolding assms
    using recordButtonStates_syncs[OF sample_names_ok c]
    by (intro recordButtonStates_in_sync) simp_all
  from sample_touch obtain tps where tps: "parseTouchPoints sampleReport 9 = Inr tps" ..
  from sample_battery obtain info where info: "stubParseBatteryStatus sampleReport = Inr info" ..
  have off: "touchpadOffset sampleInputConfig = Some 9" by (simp add: sampleInputConfig_def)
  show ?thesis
    using processControllerInput_returns[of m sampleReport
            "stubController sampleInputConfig okResult" _ _ 9 tps info id]
          rec tps info off
    by (simp add: stub_config stub_battery)
qed

text \<open>
  The same report processed twice in a row from the constructor's state: both calls return,
  with different change-sets.
\<close>

theorem processControllerInput_history_counterexample:
  "map_sum id pr_changes
     (fst (processControllerInput id (stubController sampleInputConfig okResult) newControllerManager sampleReport))
   \<noteq> map_sum id pr_changes
     (fst (processControllerInput id (stubController sampleInputConfig okResult)
             (snd (processControllerInput id (stubController sampleInputConfig okResult)
                     newControllerManager sampleReport))
             sampleReport)) \<and>
   \<not> isl (fst (processControllerInput id (stubController sampleInputConfig okResult) newControllerManager sampleReport)) \<and>
   \<not> isl (fst (processControllerInput id (stubController sampleInputConfig okResult)
             (snd (processControllerInput id (stubController sampleInputConfig okResult)
                     newControllerManager sampleReport))
             sampleReport))"
proof -
  let ?A = "processControllerInput id (stubController sampleInputConfig okResult) newControllerManager sampleReport"
  from sample_first obtain r1 where
    a: "?A = (Inr r1, snd ?A)" and c1: "pr_changes r1 ''r2_analog'' = Some (JNum 200)"
    and s: "button_states (snd ?A)
         = snd (recordButtonStates (button_states newControllerManager) sampleReport
                  (buttonMap sampleInputConfig) (dpadByte sampleInputConfig)
                  (l2AnalogByte sampleInputConfig) (r2AnalogByte sampleInputConfig))"
    by blast
  from sample_second[OF s] obtain r2 where
    b: "processControllerInput id (stubController sampleInputConfig okResult) (snd ?A) sampleReport
          = (Inr r2, snd (processControllerInput id (stubController sampleInputConfig okResult) (snd ?A) sampleReport))"
    and c2: "pr_changes r2 ''r2_analog'' = None"
    by blast
  have "pr_changes r1 \<noteq> pr_changes r2" using c1 c2 by auto
  moreover have "fst ?A = Inr r1" using a by (metis fst_conv)
  moreover have "fst (processControllerInput id (stubController sampleInputConfig okResult) (snd ?A) sampleReport) = Inr r2"
    using b by (metis fst_conv)
  ultimately show ?thesis by simp
qed

theorem processControllerInput_history_independent_part_witness:
  "\<exists>r1 r2.
     fst (processControllerInput id (stubController sampleInputConfig okResult) newControllerManager sampleReport)
       = Inr r1 \<and>
     fst (processControllerInput id (stubController sampleInputConfig okResult)
             (snd (processControllerInput id (stubController sampleInputConfig okResult)
                     newControllerManager sampleReport))
             sampleReport) = Inr r2 \<and>
     pr_touchPoints r1 = pr_touchPoints r2 \<and>
     bat_txt (pr_batteryStatus r1) = bat_txt (pr_batteryStatus r2)"
proof -
  let ?A = "processControllerInput id (stubController sampleInputConfig okResult) newControllerManager sampleReport"
  from sample_first obtain r1 where
    a: "?A = (Inr r1, snd ?A)"
    and s: "button_states (snd ?A)
         = snd (recordButtonStates (button_states newControllerManager) sampleReport
                  (buttonMap sampleInputConfig) (dpadByte sampleInputConfig)
                  (l2AnalogByte sampleInputConfig) (r2AnalogByte sampleInputConfig))"
    by blast
  from sample_second[OF s] obtain r2 where
    b: "processControllerInput id (stubController sampleInputConfig okResult) (snd ?A) sampleReport
          = (Inr r2, snd (processControllerInput id (stubController sampleInputConfig okResult) (snd ?A) sampleReport))"
    by blast
  have fa: "fst ?A = Inr r1" using a by (metis fst_conv)
  have fb: "fst (processControllerInput id (stubController sampleInputConfig okResult) (snd ?A) sampleReport) = Inr r2"
    using b by (metis fst_conv)
  have "touchpadOffset (drv_getInputConfig (stubController sampleInputConfig okResult)) = Some 9"
    by (simp add: stub_config sampleInputConfig_def)
  then show ?thesis
    using processControllerInput_history_independent_part[OF fa fb] fa fb by auto
qed

section \<open>Stick values in the snapshot\<close>

lemma stickValue_hundredths: "\<exists>n. - 100 \<le> n \<and> n \<le> 100 \<and> stickValue v = of_int n / 100"
proof -
  have "- 100 \<le> (50 * uint v - 6343) div 64" "(50 * uint v - 6343) div 64 \<le> 100"
    using uint_u8_bounds[of v] by linarith+
  then show ?thesis using stick_int[of v] by blast
qed

lemma recordSticks_snapshot:
  assumes "4 \<le> length data" and "sticksOk st"
  shows "snd (recordSticks data st ch) ''sticks''
           = Some (JSticks \<lparr> ss_left = \<lparr> sp_x = stickValue (data ! 0), sp_y = stickValue (data ! 1) \<rparr>,
                              ss_right = \<lparr> sp_x = stickValue (data ! 2), sp_y = stickValue (data ! 3) \<rparr> \<rparr>)"
  unfolding recordSticks_writes[OF assms] by (simp add: returned_def)

text \<open>
  Claim C3. The stick values written to the snapshot are computed from the bytes at offsets
  0, 1, 2 and 3, each by \<open>stickValue\<close>; the value of a byte is a whole number of hundredths
  between -1 and 1, within half a hundredth of \<open>(v - 127.5) / 128\<close>; byte 0 gives -1.00,
  byte 255 gives 1.00 and byte 128 gives 0.00.
\<close>

theorem stick_values_two_decimals:
  assumes "4 \<le> length data" and "sticksOk st"
  shows "snd (recordSticks data st ch) ''sticks''
           = Some (JSticks \<lparr> ss_left = \<lparr> sp_x = stickValue (data ! 0), sp_y = stickValue (data ! 1) \<rparr>,
                              ss_right = \<lparr> sp_x = stickValue (data ! 2), sp_y = stickValue (data ! 3) \<rparr> \<rparr>) \<and>
         (\<exists>n. - 100 \<le> n \<and> n \<le> 100 \<and> stickValue v = of_int n / 100) \<and>
         \<bar>stickValue v - (of_nat (unat v) - 127.5) / 128\<bar> \<le> 1 / 200 \<and>
         stickValue 0 = - 1 \<and> stickValue 255 = 1 \<and> stickValue 128 = 0"
  using recordSticks_snapshot[OF assms] stickValue_hundredths[of v] stickValue_near[of v]
  by (simp add: stick_int)

theorem stick_values_two_decimals_witness:
  "snd (recordSticks sampleReport (button_states newControllerManager) Map.empty) ''sticks''
     = Some (JSticks \<lparr> ss_left = \<lparr> sp_x = - 1, sp_y = 1 \<rparr>,
                        ss_right = \<lparr> sp_x = 0, sp_y = 57 / 100 \<rparr> \<rparr>)"
proof -
  have "4 \<le> length sampleReport" by (simp add: sampleReport_def)
  from stick_values_two_decimals[OF this new_sticksOk, of Map.empty]
  show ?thesis by (simp add: sampleReport_def stick_int)
qed

text \<open>
  The condition on the button map in C5 is needed: with two entries of the same name and
  different masks, the second recording of the same report reports the button again.
\<close>

lemma recordButtonStates_duplicate_names:
  "fst (recordButtonStates
          (snd (recordButtonStates (button_states newControllerManager) [128, 128, 128, 128, 0x10]
                  [\<lparr> bm_name = ''square'', bm_byte = 4, bm_mask = 0x10 \<rparr>,
                   \<lparr> bm_name = ''square'', bm_byte = 4, bm_mask = 0x20 \<rparr>] 4 4 4))
          [128, 128, 128, 128, 0x10]
          [\<lparr> bm_name = ''square'', bm_byte = 4, bm_mask = 0x10 \<rparr>,
           \<lparr> bm_name = ''square'', bm_byte = 4, bm_mask = 0x20 \<rparr>] 4 4 4)
     = Inr [''square'' \<mapsto> JBool False]"
proof -
  let ?bm = "[\<lparr> bm_name = ''square'', bm_byte = 4, bm_mask = 0x10 \<rparr>,
              \<lparr> bm_name = ''square'', bm_byte = 4, bm_mask = 0x20 \<rparr>]"
  let ?data = "[128, 128, 128, 128, 0x10] :: DataView"
  have ok: "offsetsOk ?data ?bm 4 4 4"
    by (simp add: offsetsOk_def otherButtons_def dpadDirections_def)
  have ws: "decodeWrites ?data ?bm 4 4 4
      = [(''sticks'', JSticks \<lparr> ss_left = \<lparr> sp_x = 0, sp_y = 0 \<rparr>, ss_right = \<lparr> sp_x = 0, sp_y = 0 \<rparr> \<rparr>),
         (''l2_analog'', JNum 16), (''r2_analog'', JNum 16),
         (''up'', JBool True), (''right'', JBool False), (''down'', JBool False), (''left'', JBool False),
         (''square'', JBool True), (''square'', JBool False)]"
    by (simp add: decodeWrites_def otherButtons_def dpadDirections_def dpad_map_def stick_int)
  have first: "recordButtonStates (button_states newControllerManager) ?data ?bm 4 4 4
      = (Inr [''l2_analog'' \<mapsto> JNum 16, ''r2_analog'' \<mapsto> JNum 16, ''up'' \<mapsto> JBool True,
              ''right'' \<mapsto> JBool False, ''down'' \<mapsto> JBool False, ''left'' \<mapsto> JBool False,
              ''square'' \<mapsto> JBool False],
         (button_states newControllerManager)
           (''l2_analog'' \<mapsto> JNum 16, ''r2_analog'' \<mapsto> JNum 16, ''up'' \<mapsto> JBool True,
              ''right'' \<mapsto> JBool False, ''down'' \<mapsto> JBool False, ''left'' \<mapsto> JBool False,
              ''square'' \<mapsto> JBool False))"
    unfolding recordButtonStates_writes[OF ok new_sticksOk] ws
    by (simp add: returned_def newControllerManager_def)
  have sticks: "sticksOk ((button_states newControllerManager)
           (''l2_analog'' \<mapsto> JNum 16, ''r2_analog'' \<mapsto> JNum 16, ''up'' \<mapsto> JBool True,
              ''right'' \<mapsto> JBool False, ''down'' \<mapsto> JBool False, ''left'' \<mapsto> JBool False,
              ''square'' \<mapsto> JBool False))"
    by (simp add: sticksOk_def newControllerManager_def)
  show ?thesis
    unfolding first snd_conv recordButtonStates_writes[OF ok sticks] ws
    by (simp add: returned_def newControllerManager_def)
qed

end
